theory Spec2Isabelle
  imports Complex_Main "HOL-Library.AList" "HOL-Library.Log_Nat" "HOL-Library.Multiset"
begin

section \<open>Proactive routing for NSFNET: the controller of ryu\_app.py\<close>

text \<open>
  A shallow embedding of \<^verbatim>\<open>ryu_app.py\<close>: the class \<^verbatim>\<open>ProactiveRouting\<close> is a record of
  its attributes, every method is a function from the state to the new state, and the
  two effects of the program are fields of that record: \<open>sent\<close> holds the OpenFlow
  messages passed to \<^verbatim>\<open>dp.send_msg\<close> (with the datapath they went to), \<open>logs\<close> the calls of
  \<^verbatim>\<open>self.logger\<close>, both in the order they happen.

  Python integers (datapath ids, port numbers) are \<open>nat\<close> where the protocol makes them
  unsigned and \<open>int\<close> for the counters, whose differences can be negative. A Python float
  (time stamps, weights, rates) is a double; it is modelled by its exact value, a
  rational, and every floating-point operation rounds its exact result to the nearest
  double (see \<open>to_double\<close>). Strings are \<open>string\<close>; a character stands for the code
  point of the same number (U+0000 to U+00FF).
\<close>

subsection \<open>Floating-point numbers\<close>

text \<open>To the nearest integer, a tie to the even one.\<close>

definition round_half_even :: "rat \<Rightarrow> int" where
  "round_half_even y =
     (let f = \<lfloor>y\<rfloor>; r = y - of_int f in
      if r < 1 / 2 then f else if 1 / 2 < r then f + 1 else if even f then f else f + 1)"

text \<open>For \<open>x > 0\<close>, the exponent \<open>k\<close> with \<open>2 ^ k \<le> x < 2 ^ (k + 1)\<close>.\<close>

definition ilog2 :: "rat \<Rightarrow> int" where
  "ilog2 x = (if 1 \<le> x then bitlen \<lfloor>x\<rfloor> - 1 else - bitlen (\<lceil>1 / x\<rceil> - 1))"

text \<open>
  The double nearest to \<open>x\<close> (IEEE 754 binary64, round to nearest, ties to even): a
  significand of 53 bits, and below \<open>2 ^ (- 1022)\<close> the fixed spacing \<open>2 ^ (- 1074)\<close> of
  the subnormal numbers. The numbers of this program stay far below the largest
  double (the counters are decoded from 64-bit fields, the time stamps are seconds
  since 1970), so the overflow to infinity is not part of the model.
\<close>

definition to_double :: "rat \<Rightarrow> rat" where
  "to_double x =
     (if x = 0 then 0
      else let e = max (ilog2 \<bar>x\<bar> - 52) (- 1074)
           in sgn x * of_int (round_half_even (\<bar>x\<bar> / 2 powi e)) * 2 powi e)"

text \<open>
  The operations on floats: each is the exact operation, rounded. An integer operand
  is converted first (\<open>float_of_int\<close>); the quotient of two integers (\<^verbatim>\<open>a / b\<close> on
  \<^verbatim>\<open>int\<close>) is the rounded exact quotient.
\<close>

definition float_of_int :: "int \<Rightarrow> rat" where
  "float_of_int n = to_double (of_int n)"

definition fsub :: "rat \<Rightarrow> rat \<Rightarrow> rat" where
  "fsub a b = to_double (a - b)"

definition fadd :: "rat \<Rightarrow> rat \<Rightarrow> rat" where
  "fadd a b = to_double (a + b)"

definition fmul :: "rat \<Rightarrow> rat \<Rightarrow> rat" where
  "fmul a b = to_double (a * b)"

definition fdiv :: "rat \<Rightarrow> rat \<Rightarrow> rat" where
  "fdiv a b = to_double (a / b)"

definition int_truediv :: "int \<Rightarrow> int \<Rightarrow> rat" where
  "int_truediv a b = to_double (of_int a / of_int b)"

subsection \<open>Identifiers and host addresses\<close>

type_synonym dpid = nat
type_synonym port_no = nat

definition NUM_HOSTS :: nat where
  "NUM_HOSTS = 14"

definition digit_char :: "nat \<Rightarrow> char" where
  "digit_char n = ''0123456789'' ! n"

text \<open>Python's \<^verbatim>\<open>str(i)\<close> for a non-negative integer: its decimal digits.\<close>

fun str_nat :: "nat \<Rightarrow> string" where
  "str_nat n = (if n < 10 then [digit_char n] else str_nat (n div 10) @ [digit_char (n mod 10)])"

declare str_nat.simps [simp del]

text \<open>\<^verbatim>\<open>def ip_of(i): return f"10.0.0.{i}"\<close>\<close>

definition ip_of :: "nat \<Rightarrow> string" where
  "ip_of i = ''10.0.0.'' @ str_nat i"

text \<open>\<^verbatim>\<open>def undirected_key(a, b): return (a, b) if a < b else (b, a)\<close>\<close>

definition undirected_key :: "nat \<Rightarrow> nat \<Rightarrow> nat \<times> nat" where
  "undirected_key a b = (if a < b then (a, b) else (b, a))"

subsection \<open>The bandwidth table\<close>

text \<open>\<^verbatim>\<open>self.link_bw\<close> and \<^verbatim>\<open>self.default_bw\<close> are set once in \<^verbatim>\<open>__init__\<close> and never written again.\<close>

definition link_bw :: "(nat \<times> nat) \<rightharpoonup> nat" where
  "link_bw = map_of
     [(undirected_key 1 2, 50), (undirected_key 1 5, 30),
      (undirected_key 2 3, 20), (undirected_key 2 6, 40),
      (undirected_key 3 4, 25), (undirected_key 3 7, 35),
      (undirected_key 4 8, 45), (undirected_key 5 6, 10),
      (undirected_key 5 9, 20), (undirected_key 6 7, 50),
      (undirected_key 6 10, 8), (undirected_key 7 11, 40),
      (undirected_key 8 12, 30), (undirected_key 9 10, 40),
      (undirected_key 9 13, 35), (undirected_key 10 11, 20),
      (undirected_key 10 14, 30), (undirected_key 11 12, 45),
      (undirected_key 12 14, 25), (undirected_key 13 14, 15),
      (undirected_key 8 11, 20)]"

definition default_bw :: nat where
  "default_bw = 10"

text \<open>\<^verbatim>\<open>self.link_bw.get(undirected_key(u, v), self.default_bw)\<close>\<close>

definition bw_of :: "dpid \<Rightarrow> dpid \<Rightarrow> nat" where
  "bw_of u v = (case link_bw (undirected_key u v) of Some b \<Rightarrow> b | None \<Rightarrow> default_bw)"

subsection \<open>The switch graph\<close>

text \<open>
  \<^verbatim>\<open>self.G\<close> is a \<^verbatim>\<open>networkx.Graph\<close>. The model keeps what the program reads of it: the
  nodes in insertion order (the keys of a dictionary), and for every node its
  neighbours with the attributes of the edge, in insertion order too. An edge
  \<open>{u, v}\<close> is stored under both \<open>u\<close> and \<open>v\<close>; adding an edge adds its end points as
  nodes, \<open>u\<close> first.
\<close>

record edge_attr =
  bw :: nat
  weight :: rat

record graph =
  g_node :: "dpid list"
  g_adj :: "dpid \<Rightarrow> (dpid \<times> edge_attr) list"

definition empty_graph :: graph where
  "empty_graph = \<lparr>g_node = [], g_adj = (\<lambda>_. [])\<rparr>"

definition add_node :: "dpid \<Rightarrow> graph \<Rightarrow> graph" where
  "add_node n g = (if n \<in> set (g_node g) then g else g\<lparr>g_node := g_node g @ [n]\<rparr>)"

definition add_edge :: "dpid \<Rightarrow> dpid \<Rightarrow> edge_attr \<Rightarrow> graph \<Rightarrow> graph" where
  "add_edge u v a g =
     (let g1 = add_node v (add_node u g);
          g2 = g1\<lparr>g_adj := (g_adj g1)(u := AList.update v a (g_adj g1 u))\<rparr>
      in g2\<lparr>g_adj := (g_adj g2)(v := AList.update u a (g_adj g2 v))\<rparr>)"

definition number_of_nodes :: "graph \<Rightarrow> nat" where
  "number_of_nodes g = length (g_node g)"

text \<open>\<^verbatim>\<open>n in G\<close>\<close>

definition in_graph :: "dpid \<Rightarrow> graph \<Rightarrow> bool" where
  "in_graph n g = (n \<in> set (g_node g))"

text \<open>The degree of a node counts a self-loop twice; the number of edges is half the sum.\<close>

definition degree :: "graph \<Rightarrow> dpid \<Rightarrow> nat" where
  "degree g n = length (g_adj g n) + (if n \<in> fst ` set (g_adj g n) then 1 else 0)"

definition number_of_edges :: "graph \<Rightarrow> nat" where
  "number_of_edges g = sum_list (map (degree g) (g_node g)) div 2"

text \<open>\<^verbatim>\<open>G.get_edge_data(u, v, default={})\<close>: the attributes of the edge, if there is one.\<close>

definition get_edge_data :: "graph \<Rightarrow> dpid \<Rightarrow> dpid \<Rightarrow> edge_attr option" where
  "get_edge_data g u v = map_of (g_adj g u) v"

text \<open>
  \<^verbatim>\<open>G.edges(data=True)\<close>: every edge once, reported from the end point that comes first
  in the node order.
\<close>

fun edges_from :: "graph \<Rightarrow> dpid list \<Rightarrow> dpid list \<Rightarrow> (dpid \<times> dpid \<times> edge_attr) list" where
  "edges_from g seen [] = []"
| "edges_from g seen (n # ns) =
     map (\<lambda>(nbr, d). (n, nbr, d)) (filter (\<lambda>(nbr, d). nbr \<notin> set seen) (g_adj g n))
     @ edges_from g (n # seen) ns"

definition graph_edges :: "graph \<Rightarrow> (dpid \<times> dpid \<times> edge_attr) list" where
  "graph_edges g = edges_from g [] (g_node g)"

text \<open>
  \<^verbatim>\<open>nx.shortest_path(G, source, target, weight='weight')\<close> belongs to the graph library.
  It is a parameter of every function that calls it: at both call sites the two end
  points are nodes of the graph, where the library either returns a path (a list of
  nodes from the source to the target) or raises \<^verbatim>\<open>NetworkXNoPath\<close>.
\<close>

datatype sp_result = Path "dpid list" | NetworkXNoPath

type_synonym shortest_path = "graph \<Rightarrow> dpid \<Rightarrow> dpid \<Rightarrow> sp_result"

subsection \<open>OpenFlow messages and log records\<close>

definition OFPP_MAX :: nat where
  "OFPP_MAX = 0xffffff00"

definition OFPP_CONTROLLER :: nat where
  "OFPP_CONTROLLER = 0xfffffffd"

datatype ofmatch =
    MatchAll
  | MatchEthType nat
  | MatchIPv4Dst nat string
  | MatchArpTpa nat string

datatype action = OFPActionOutput nat

datatype instruction = ApplyActions "action list"

datatype ofmsg =
    FlowAdd nat ofmatch "instruction list"
  | FlowDeleteAll
  | PortDescStatsRequest
  | PortStatsRequest
  | FlowStatsRequest

datatype level = INFO | WARNING

datatype event =
    ValidPorts dpid "port_no list"
  | SwitchEnter
  | LinkAdd
  | GraphEmpty
  | GraphReady nat nat string
  | MultipleCandidates dpid "port_no list" port_no
  | NoCandidate dpid
  | HostPort dpid port_no
  | DstNotInGraph dpid string
  | FlowsInstalled
  | NoRoute dpid dpid string
  | UnknownPort dpid dpid string
  | ModeChanged string

type_synonym logrec = "level \<times> event"

type_synonym effects = "(dpid \<times> ofmsg) list \<times> logrec list"

subsection \<open>The controller state\<close>

record sample =
  rx_packets :: int
  tx_packets :: int
  rx_bytes :: int
  tx_bytes :: int
  rx_dropped :: int
  tx_dropped :: int
  rx_errors :: int
  tx_errors :: int
  timestamp :: rat

record controller =
  mode :: string
  G :: graph
  adj :: "((dpid \<times> dpid) \<times> port_no) list"
  datapaths :: "dpid list"
  sw_all_ports :: "dpid \<Rightarrow> port_no set"
  sw_link_ports :: "dpid \<Rightarrow> port_no set"
  host_port :: "dpid \<rightharpoonup> port_no"
  port_stats :: "dpid \<rightharpoonup> (port_no \<rightharpoonup> sample)"
  port_stats_prev :: "dpid \<rightharpoonup> (port_no \<rightharpoonup> sample)"
  stats_timestamp :: "dpid \<rightharpoonup> rat"
  sent :: "(dpid \<times> ofmsg) list"
  logs :: "logrec list"

text \<open>The state \<^verbatim>\<open>__init__\<close> leaves.\<close>

definition init_state :: controller where
  "init_state = \<lparr>mode = ''hops'', G = empty_graph, adj = [], datapaths = [],
     sw_all_ports = (\<lambda>_. {}), sw_link_ports = (\<lambda>_. {}), host_port = Map.empty,
     port_stats = Map.empty, port_stats_prev = Map.empty, stats_timestamp = Map.empty,
     sent = [], logs = []\<rparr>"

definition emit :: "effects \<Rightarrow> controller \<Rightarrow> controller" where
  "emit out st = st\<lparr>sent := sent st @ fst out, logs := logs st @ snd out\<rparr>"

subsection \<open>What the topology service reports\<close>

record link =
  src_dpid :: dpid
  src_port :: port_no
  dst_dpid :: dpid
  dst_port :: port_no

record topo =
  switches :: "dpid list"
  links :: "link list"

subsection \<open>Building the graph\<close>

fun add_switches :: "dpid list \<Rightarrow> graph \<Rightarrow> graph" where
  "add_switches [] g = g"
| "add_switches (sw # sws) g = add_switches sws (add_node sw g)"

text \<open>
  The loop over the links of \<^verbatim>\<open>_build_graph\<close>, on the three structures it writes: the
  graph, the directional port map and the link ports of every switch. The bandwidth
  is never 0 (see \<open>bw_of_pos\<close>), so \<^verbatim>\<open>1.0 / bw\<close> does not raise.
\<close>

fun add_links :: "string \<Rightarrow> link list
    \<Rightarrow> graph \<times> ((dpid \<times> dpid) \<times> port_no) list \<times> (dpid \<Rightarrow> port_no set)
    \<Rightarrow> graph \<times> ((dpid \<times> dpid) \<times> port_no) list \<times> (dpid \<Rightarrow> port_no set)" where
  "add_links m [] acc = acc"
| "add_links m (lk # lks) (g, a, lp) =
     (let u = src_dpid lk; v = dst_dpid lk;
          a1 = AList.update (u, v) (src_port lk) a;
          a2 = AList.update (v, u) (dst_port lk) a1;
          lp1 = lp(u := insert (src_port lk) (lp u));
          lp2 = lp1(v := insert (dst_port lk) (lp1 v));
          b = bw_of u v;
          w = (if m = ''distrak'' then fdiv 1 (float_of_int (int b)) else 1)
      in add_links m lks (add_edge u v \<lparr>bw = b, weight = w\<rparr> g, a2, lp2))"

definition build_graph :: "topo \<Rightarrow> controller \<Rightarrow> controller" where
  "build_graph tp st =
     (case add_links (mode st) (links tp)
             (add_switches (switches tp) empty_graph, [], (\<lambda>_. {})) of
        (g, a, lp) \<Rightarrow>
          st\<lparr>G := g, adj := a, sw_link_ports := lp,
              logs := logs st @ [(INFO, GraphReady (number_of_nodes g) (number_of_edges g) (mode st))]\<rparr>)"

subsection \<open>Deducing the host ports\<close>

text \<open>
  One round of the loop of \<^verbatim>\<open>_deduce_host_ports\<close>: the port chosen for a switch and what
  is logged. \<^verbatim>\<open>next(iter(cand))\<close> of a one-element set is its element.
\<close>

definition deduce_port :: "port_no set \<Rightarrow> port_no set \<Rightarrow> dpid \<Rightarrow> port_no \<times> logrec list" where
  "deduce_port allp linkp d =
     (let cand = allp - linkp in
      if card cand = 1 then (the_elem cand, [(INFO, HostPort d (the_elem cand))])
      else if card cand > 1 then
        (Min cand, [(WARNING, MultipleCandidates d (sorted_list_of_set cand) (Min cand)),
                    (INFO, HostPort d (Min cand))])
      else (1, [(WARNING, NoCandidate d), (INFO, HostPort d 1)]))"

fun deduce_loop :: "(dpid \<Rightarrow> port_no set) \<Rightarrow> (dpid \<Rightarrow> port_no set) \<Rightarrow> dpid list
    \<Rightarrow> (dpid \<rightharpoonup> port_no) \<times> logrec list \<Rightarrow> (dpid \<rightharpoonup> port_no) \<times> logrec list" where
  "deduce_loop allp linkp [] acc = acc"
| "deduce_loop allp linkp (d # ds) (hp, lg) =
     (case deduce_port (allp d) (linkp d) d of
        (p, l) \<Rightarrow> deduce_loop allp linkp ds (hp(d \<mapsto> p), lg @ l))"

definition deduce_host_ports :: "controller \<Rightarrow> controller" where
  "deduce_host_ports st =
     (case deduce_loop (sw_all_ports st) (sw_link_ports st) (g_node (G st)) (Map.empty, logs st) of
        (hp, lg) \<Rightarrow> st\<lparr>host_port := hp, logs := lg\<rparr>)"

subsection \<open>Wiping the switches and installing the routes\<close>

definition install_base_rules :: "dpid \<Rightarrow> (dpid \<times> ofmsg) list" where
  "install_base_rules dp =
     [(dp, FlowAdd 500 (MatchEthType 0x88cc) [ApplyActions [OFPActionOutput OFPP_CONTROLLER]]),
      (dp, FlowAdd 0 MatchAll [])]"

definition clear_all_flows :: "controller \<Rightarrow> controller" where
  "clear_all_flows st =
     emit (concat (map (\<lambda>dp. (dp, FlowDeleteAll) # install_base_rules dp) (datapaths st)), []) st"

text \<open>
  The end of a round of the loop of \<^verbatim>\<open>_install_tree_to_destination\<close>, once the output
  port is known: nothing for a switch that has no datapath, the IPv4 and the ARP rule
  otherwise.
\<close>

definition send_rules :: "controller \<Rightarrow> dpid \<Rightarrow> string \<Rightarrow> port_no \<Rightarrow> effects" where
  "send_rules st u dst_ip out_port =
     (if u \<notin> set (datapaths st) then ([], [])
      else ([(u, FlowAdd 100 (MatchIPv4Dst 0x0800 dst_ip) [ApplyActions [OFPActionOutput out_port]]),
             (u, FlowAdd 100 (MatchArpTpa 0x0806 dst_ip) [ApplyActions [OFPActionOutput out_port]])],
            []))"

text \<open>
  The first half of a round of that loop, for the switch \<open>u\<close>: the output port, or
  what is logged where the source says \<^verbatim>\<open>continue\<close>.
\<close>

definition out_port_of :: "shortest_path \<Rightarrow> controller \<Rightarrow> dpid \<Rightarrow> string \<Rightarrow> dpid \<Rightarrow> logrec list + port_no" where
  "out_port_of sp st dst_sw dst_ip u =
     (if u = dst_sw then Inr (case host_port st dst_sw of Some p \<Rightarrow> p | None \<Rightarrow> 1)
      else
        (case sp (G st) u dst_sw of
           NetworkXNoPath \<Rightarrow> Inl [(WARNING, NoRoute u dst_sw dst_ip)]
         | Path path \<Rightarrow>
             if length path < 2 then Inl []
             else
               (case map_of (adj st) (u, path ! 1) of
                  None \<Rightarrow> Inl [(WARNING, UnknownPort u (path ! 1) dst_ip)]
                | Some out_port \<Rightarrow> Inr out_port)))"

text \<open>One round of that loop.\<close>

definition tree_step :: "shortest_path \<Rightarrow> controller \<Rightarrow> dpid \<Rightarrow> string \<Rightarrow> dpid \<Rightarrow> effects" where
  "tree_step sp st dst_sw dst_ip u =
     (case out_port_of sp st dst_sw dst_ip u of
        Inl ls \<Rightarrow> ([], ls)
      | Inr out_port \<Rightarrow> send_rules st u dst_ip out_port)"

fun tree_loop :: "shortest_path \<Rightarrow> controller \<Rightarrow> dpid \<Rightarrow> string \<Rightarrow> dpid list \<Rightarrow> effects" where
  "tree_loop sp st dst_sw dst_ip [] = ([], [])"
| "tree_loop sp st dst_sw dst_ip (u # us) =
     (case tree_step sp st dst_sw dst_ip u of
        (ms, ls) \<Rightarrow> (case tree_loop sp st dst_sw dst_ip us of (ms', ls') \<Rightarrow> (ms @ ms', ls @ ls')))"

definition install_tree_to_destination :: "shortest_path \<Rightarrow> controller \<Rightarrow> dpid \<Rightarrow> string \<Rightarrow> effects" where
  "install_tree_to_destination sp st dst_sw dst_ip = tree_loop sp st dst_sw dst_ip (g_node (G st))"

text \<open>The loop of \<^verbatim>\<open>_install_all_destinations\<close> over \<^verbatim>\<open>range(1, NUM_HOSTS + 1)\<close>.\<close>

fun dest_loop :: "shortest_path \<Rightarrow> controller \<Rightarrow> nat list \<Rightarrow> effects" where
  "dest_loop sp st [] = ([], [])"
| "dest_loop sp st (j # js) =
     (case (if \<not> in_graph j (G st) then ([], [(WARNING, DstNotInGraph j (ip_of j))])
            else install_tree_to_destination sp st j (ip_of j)) of
        (ms, ls) \<Rightarrow> (case dest_loop sp st js of (ms', ls') \<Rightarrow> (ms @ ms', ls @ ls')))"

definition install_all_destinations :: "shortest_path \<Rightarrow> controller \<Rightarrow> controller" where
  "install_all_destinations sp st =
     emit ([], [(INFO, FlowsInstalled)]) (emit (dest_loop sp st [1..<NUM_HOSTS + 1]) st)"

definition rebuild_graph_and_push :: "topo \<Rightarrow> shortest_path \<Rightarrow> controller \<Rightarrow> controller" where
  "rebuild_graph_and_push tp sp st =
     (let st1 = build_graph tp st in
      if number_of_nodes (G st1) = 0 then emit ([], [(WARNING, GraphEmpty)]) st1
      else install_all_destinations sp (clear_all_flows (deduce_host_ports st1)))"

subsection \<open>Events and the public methods\<close>

text \<open>
  \<^verbatim>\<open>self.datapaths\<close> is a dictionary from datapath ids to connections; the model keeps
  its keys, in insertion order. A connection object is never falsy, so
  \<^verbatim>\<open>if not dp\<close> asks whether the key is there.
\<close>

definition state_change :: "dpid \<Rightarrow> bool \<Rightarrow> controller \<Rightarrow> controller" where
  "state_change d alive st =
     (if alive then (if d \<in> set (datapaths st) then st else st\<lparr>datapaths := datapaths st @ [d]\<rparr>)
      else st\<lparr>datapaths := removeAll d (datapaths st)\<rparr>)"

definition switch_features :: "dpid \<Rightarrow> controller \<Rightarrow> controller" where
  "switch_features d st = emit (install_base_rules d @ [(d, PortDescStatsRequest)], []) st"

definition port_desc_reply :: "topo \<Rightarrow> shortest_path \<Rightarrow> dpid \<Rightarrow> port_no list \<Rightarrow> controller \<Rightarrow> controller" where
  "port_desc_reply tp sp d body st =
     (let ports = {p \<in> set body. p < OFPP_MAX} in
      rebuild_graph_and_push tp sp
        (emit ([], [(INFO, ValidPorts d (sorted_list_of_set ports))])
           (st\<lparr>sw_all_ports := (sw_all_ports st)(d := ports)\<rparr>)))"

definition on_switch_enter :: "topo \<Rightarrow> shortest_path \<Rightarrow> controller \<Rightarrow> controller" where
  "on_switch_enter tp sp st = rebuild_graph_and_push tp sp (emit ([], [(INFO, SwitchEnter)]) st)"

definition on_link_add :: "topo \<Rightarrow> shortest_path \<Rightarrow> controller \<Rightarrow> controller" where
  "on_link_add tp sp st = rebuild_graph_and_push tp sp (emit ([], [(INFO, LinkAdd)]) st)"

datatype verr = InvalidLiteral string | DigitLimit nat | OnlyHostIPs | BadNodeFormat

datatype exn = ValueError verr | AssertionError | AttributeError | JSONDecodeError | KeyError

text \<open>\<^verbatim>\<open>ProactiveRouting.set_mode\<close>; the assertion comes before every write.\<close>

definition set_mode :: "topo \<Rightarrow> shortest_path \<Rightarrow> string \<Rightarrow> controller \<Rightarrow> exn + controller" where
  "set_mode tp sp new_mode st =
     (if new_mode \<notin> {''hops'', ''distrak''} then Inl AssertionError
      else if new_mode \<noteq> mode st then
        Inr (rebuild_graph_and_push tp sp
               (emit ([], [(INFO, ModeChanged new_mode)]) (st\<lparr>mode := new_mode\<rparr>)))
      else Inr st)"

definition reinstall :: "topo \<Rightarrow> shortest_path \<Rightarrow> controller \<Rightarrow> controller" where
  "reinstall tp sp st = rebuild_graph_and_push tp sp st"

subsection \<open>Port counters and link statistics\<close>

record port_stat =
  ps_port_no :: port_no
  ps_rx_packets :: int
  ps_tx_packets :: int
  ps_rx_bytes :: int
  ps_tx_bytes :: int
  ps_rx_dropped :: int
  ps_tx_dropped :: int
  ps_rx_errors :: int
  ps_tx_errors :: int

text \<open>
  The loop of \<^verbatim>\<open>_port_stats_reply\<close> on the two dictionaries of one switch; \<open>ts\<close> is
  the float that \<^verbatim>\<open>time.time()\<close> returned. The
  dictionary of previous samples is \<open>None\<close> when the switch has no entry in
  \<^verbatim>\<open>self.port_stats_prev\<close>: writing into it raises \<^verbatim>\<open>KeyError\<close>.
\<close>

fun store_stats :: "rat \<Rightarrow> port_stat list
    \<Rightarrow> (port_no \<rightharpoonup> sample) \<times> (port_no \<rightharpoonup> sample) option
    \<Rightarrow> exn + (port_no \<rightharpoonup> sample) \<times> (port_no \<rightharpoonup> sample) option" where
  "store_stats ts [] acc = Inr acc"
| "store_stats ts (s # ss) (cur, prev) =
     (let new = \<lparr>rx_packets = ps_rx_packets s, tx_packets = ps_tx_packets s,
                 rx_bytes = ps_rx_bytes s, tx_bytes = ps_tx_bytes s,
                 rx_dropped = ps_rx_dropped s, tx_dropped = ps_tx_dropped s,
                 rx_errors = ps_rx_errors s, tx_errors = ps_tx_errors s, timestamp = ts\<rparr>
      in case cur (ps_port_no s) of
           None \<Rightarrow> store_stats ts ss (cur(ps_port_no s \<mapsto> new), prev)
         | Some old \<Rightarrow>
             (case prev of
                None \<Rightarrow> Inl KeyError
              | Some pm \<Rightarrow> store_stats ts ss (cur(ps_port_no s \<mapsto> new), Some (pm(ps_port_no s \<mapsto> old)))))"

definition port_stats_reply :: "dpid \<Rightarrow> rat \<Rightarrow> port_stat list \<Rightarrow> controller \<Rightarrow> exn + controller" where
  "port_stats_reply d ts body st =
     (let st1 = (if port_stats st d = None
                 then st\<lparr>port_stats := (port_stats st)(d \<mapsto> Map.empty),
                         port_stats_prev := (port_stats_prev st)(d \<mapsto> Map.empty)\<rparr>
                 else st)
      in case store_stats ts body
                (case port_stats st1 d of Some m \<Rightarrow> m | None \<Rightarrow> Map.empty, port_stats_prev st1 d) of
           Inl e \<Rightarrow> Inl e
         | Inr (cur, prev) \<Rightarrow>
             Inr (st1\<lparr>port_stats := (port_stats st1)(d \<mapsto> cur),
                      port_stats_prev := (case prev of None \<Rightarrow> port_stats_prev st1
                                          | Some pm \<Rightarrow> (port_stats_prev st1)(d \<mapsto> pm)),
                      stats_timestamp := (stats_timestamp st1)(d \<mapsto> ts)\<rparr>))"

text \<open>
  \<^verbatim>\<open>round(x, 2)\<close> of a float: the exact value of \<open>x\<close> is rounded to two decimal
  places, a tie to the even digit, and the double nearest to that decimal is returned.
\<close>

definition py_round2 :: "rat \<Rightarrow> rat" where
  "py_round2 x = to_double (of_int (round_half_even (x * 100)) / 100)"

text \<open>
  \<^verbatim>\<open>self.port_stats.get(u, {}).get(port, {})\<close>: \<open>None\<close> stands for the empty dictionary,
  which is falsy; a stored sample has all nine keys. \<^verbatim>\<open>stats.get(key, 0)\<close> is \<open>fld\<close>.
\<close>

definition lookup_sample :: "(dpid \<rightharpoonup> (port_no \<rightharpoonup> sample)) \<Rightarrow> dpid \<Rightarrow> port_no \<Rightarrow> sample option" where
  "lookup_sample ps u p = (case ps u of None \<Rightarrow> None | Some m \<Rightarrow> m p)"

definition fld :: "(sample \<Rightarrow> 'a::zero) \<Rightarrow> sample option \<Rightarrow> 'a" where
  "fld f s = (case s of None \<Rightarrow> 0 | Some x \<Rightarrow> f x)"

record link_stat =
  ls_src :: dpid
  ls_dst :: dpid
  ls_src_port :: port_no
  ls_dst_port :: port_no
  bw_mbps :: nat
  throughput_mbps :: rat
  utilization :: rat
  packet_loss_rate :: rat
  rx_packets_u :: int
  tx_packets_u :: int
  rx_dropped_u :: int
  tx_dropped_u :: int

text \<open>
  One round of the loop of \<^verbatim>\<open>get_link_stats\<close>, for the key \<open>(u, v)\<close> of \<^verbatim>\<open>self.adj\<close>:
  \<open>None\<close> where the source says \<^verbatim>\<open>continue\<close>. A port that is 0 is falsy, as a missing
  one is.
\<close>

definition link_row :: "controller \<Rightarrow> dpid \<times> dpid \<Rightarrow> link_stat option" where
  "link_row st k =
     (case k of (u, v) \<Rightarrow>
      if u > v then None
      else
        (case (map_of (adj st) (u, v), map_of (adj st) (v, u)) of
           (Some port_u, Some port_v) \<Rightarrow>
             if port_u = 0 \<or> port_v = 0 then None
             else
               (let stats_u = lookup_sample (port_stats st) u port_u;
                    stats_v = lookup_sample (port_stats st) v port_v;
                    stats_u_prev = lookup_sample (port_stats_prev st) u port_u;
                    stats_v_prev = lookup_sample (port_stats_prev st) v port_v
                in if stats_u = None \<or> stats_v = None then None
                   else
                     (let time_diff = fsub (fld timestamp stats_u) (fld timestamp stats_u_prev);
                          bytes_u_tx = fld tx_bytes stats_u - fld tx_bytes stats_u_prev;
                          packets_u_tx = fld tx_packets stats_u - fld tx_packets stats_u_prev;
                          packets_v_rx = fld rx_packets stats_v - fld rx_packets stats_v_prev;
                          packet_loss = max 0 (packets_u_tx - packets_v_rx);
                          throughput_u_to_v =
                            (if time_diff > 0
                             then fdiv (float_of_int (bytes_u_tx * 8)) (fmul time_diff 1000000)
                             else 0);
                          loss_rate =
                            (if time_diff > 0
                             then (if packets_u_tx > 0
                                   then fmul (int_truediv packet_loss packets_u_tx) 100 else 0)
                             else 0);
                          b = bw_of u v
                      in Some \<lparr>ls_src = u, ls_dst = v, ls_src_port = port_u, ls_dst_port = port_v,
                               bw_mbps = b,
                               throughput_mbps = py_round2 throughput_u_to_v,
                               utilization =
                                 (if b > 0
                                  then py_round2 (fmul (fdiv throughput_u_to_v (float_of_int (int b))) 100)
                                  else 0),
                               packet_loss_rate = py_round2 loss_rate,
                               rx_packets_u = fld rx_packets stats_u,
                               tx_packets_u = fld tx_packets stats_u,
                               rx_dropped_u = fld rx_dropped stats_u,
                               tx_dropped_u = fld tx_dropped stats_u\<rparr>))
         | _ \<Rightarrow> None))"

definition get_link_stats :: "controller \<Rightarrow> link_stat list" where
  "get_link_stats st = List.map_filter (link_row st) (map fst (adj st))"

subsection \<open>The REST interface\<close>

record hop_info =
  h_u :: dpid
  h_v :: dpid
  h_bw :: "nat option"
  h_weight :: "rat option"
  h_out_port :: "port_no option"

record path_info =
  p_mode :: string
  p_src :: dpid
  p_dst :: dpid
  p_path :: "dpid list"
  p_hops :: nat
  p_weight_sum :: rat
  p_links :: "hop_info list"
  p_dst_host_port :: "port_no option"

datatype payload =
    UsageError
  | ModeError
  | NotInGraph "dpid list"
  | NoPathError
  | ExceptionError exn
  | ModeBody string
  | Reinstalled
  | TopologyBody string "dpid list" "(dpid \<times> dpid \<times> edge_attr) list"
  | PathBody path_info
  | LinkStatsBody "link_stat list"

record response =
  status :: nat
  body :: payload

text \<open>
  The body of a \<^verbatim>\<open>POST /set_mode\<close> after \<^verbatim>\<open>json.loads\<close>: not JSON at all, a JSON value
  that has no \<^verbatim>\<open>get\<close> (anything but an object), or an object. A value that is not a
  string is equal to neither mode.
\<close>

datatype jvalue = JString string | JOther

datatype request_body = NotJson | NotAnObject | JObject "string \<rightharpoonup> jvalue"

definition rest_set_mode :: "topo \<Rightarrow> shortest_path \<Rightarrow> request_body \<Rightarrow> controller \<Rightarrow> response \<times> controller" where
  "rest_set_mode tp sp rb st =
     (case rb of
        NotJson \<Rightarrow> (\<lparr>status = 500, body = ExceptionError JSONDecodeError\<rparr>, st)
      | NotAnObject \<Rightarrow> (\<lparr>status = 500, body = ExceptionError AttributeError\<rparr>, st)
      | JObject obj \<Rightarrow>
          (case obj ''mode'' of
             Some (JString m) \<Rightarrow>
               if m \<notin> {''hops'', ''distrak''} then (\<lparr>status = 400, body = ModeError\<rparr>, st)
               else
                 (case set_mode tp sp m st of
                    Inl e \<Rightarrow> (\<lparr>status = 500, body = ExceptionError e\<rparr>, st)
                  | Inr st' \<Rightarrow> (\<lparr>status = 200, body = ModeBody (mode st')\<rparr>, st'))
           | _ \<Rightarrow> (\<lparr>status = 400, body = ModeError\<rparr>, st)))"

definition rest_reinstall :: "topo \<Rightarrow> shortest_path \<Rightarrow> controller \<Rightarrow> response \<times> controller" where
  "rest_reinstall tp sp st = (\<lparr>status = 200, body = Reinstalled\<rparr>, reinstall tp sp st)"

definition topology :: "controller \<Rightarrow> response" where
  "topology st =
     \<lparr>status = 200, body = TopologyBody (mode st) (g_node (G st)) (graph_edges (G st))\<rparr>"

text \<open>The string methods \<^verbatim>\<open>parse_node\<close> uses.\<close>

definition py_isspace :: "char \<Rightarrow> bool" where
  "py_isspace c = (of_char c \<in> {9, 10, 11, 12, 13, 28, 29, 30, 31, 32, 133, 160 :: nat})"

definition strip :: "string \<Rightarrow> string" where
  "strip s = rev (dropWhile py_isspace (rev (dropWhile py_isspace s)))"

definition is_decimal :: "char \<Rightarrow> bool" where
  "is_decimal c = (48 \<le> (of_char c :: nat) \<and> (of_char c :: nat) \<le> 57)"

text \<open>
  \<^verbatim>\<open>str.isdigit\<close> also accepts the superscript digits (U+00B2, U+00B3, U+00B9), which
  \<^verbatim>\<open>int\<close> refuses.
\<close>

definition is_digit :: "char \<Rightarrow> bool" where
  "is_digit c = (is_decimal c \<or> of_char c \<in> {178, 179, 185 :: nat})"

definition isdigit :: "string \<Rightarrow> bool" where
  "isdigit s = (s \<noteq> [] \<and> list_all is_digit s)"

definition digit_val :: "char \<Rightarrow> nat" where
  "digit_val c = of_char c - 48"

text \<open>
  \<^verbatim>\<open>int(s)\<close> at its three call sites, where every character of \<open>s\<close> passes
  \<^verbatim>\<open>isdigit\<close>: the value of a non-empty string of decimal digits, \<^verbatim>\<open>ValueError\<close>
  otherwise. Since Python 3.11 (and the patched 3.7 to 3.10) \<^verbatim>\<open>int\<close> refuses more than
  4300 digits, with a \<^verbatim>\<open>ValueError\<close> of its own that tells their number; it counts the
  digits the string starts with before it looks at what follows them.
\<close>

definition int_max_str_digits :: nat where
  "int_max_str_digits = 4300"

definition py_int :: "string \<Rightarrow> exn + nat" where
  "py_int s =
     (let digits = length (takeWhile is_decimal s) in
      if int_max_str_digits < digits then Inl (ValueError (DigitLimit digits))
      else if s \<noteq> [] \<and> list_all is_decimal s
      then Inr (foldl (\<lambda>a c. 10 * a + digit_val c) 0 s)
      else Inl (ValueError (InvalidLiteral s)))"

fun split_dot :: "string \<Rightarrow> string list" where
  "split_dot [] = [[]]"
| "split_dot (c # cs) =
     (if c = CHR ''.'' then [] # split_dot cs
      else (case split_dot cs of p # ps \<Rightarrow> (c # p) # ps | [] \<Rightarrow> [[c]]))"

definition parse_node :: "string \<Rightarrow> exn + nat" where
  "parse_node x0 =
     (let x = strip x0 in
      if take 1 x = ''s'' \<and> isdigit (drop 1 x) then py_int (drop 1 x)
      else if isdigit (filter (\<lambda>c. c \<noteq> CHR ''.'') x) \<and> length (filter (\<lambda>c. c = CHR ''.'') x) = 3 then
        (let parts = split_dot x in
         if length parts = 4 \<and> parts ! 0 = ''10'' \<and> parts ! 1 = ''0'' \<and> parts ! 2 = ''0''
         then py_int (parts ! 3)
         else Inl (ValueError OnlyHostIPs))
      else if isdigit x then py_int x
      else Inl (ValueError BadNodeFormat))"

definition path_links :: "controller \<Rightarrow> dpid list \<Rightarrow> hop_info list" where
  "path_links st p =
     map (\<lambda>(u, v). \<lparr>h_u = u, h_v = v,
                     h_bw = map_option bw (get_edge_data (G st) u v),
                     h_weight = map_option weight (get_edge_data (G st) u v),
                     h_out_port = map_of (adj st) (u, v)\<rparr>)
         (zip p (drop 1 p))"

text \<open>
  \<^verbatim>\<open>RestAPI.path\<close>, with the two query parameters as \<^verbatim>\<open>params.get\<close> returns them. The
  method writes nothing, so the state it returns is the one it got.
\<close>

definition path :: "shortest_path \<Rightarrow> string option \<Rightarrow> string option \<Rightarrow> controller \<Rightarrow> response \<times> controller" where
  "path sp src_param dst_param st =
     (case (src_param, dst_param) of
        (Some s, Some d) \<Rightarrow>
          if s = [] \<or> d = [] then (\<lparr>status = 400, body = UsageError\<rparr>, st)
          else
            (case parse_node s of
               Inl e \<Rightarrow> (\<lparr>status = 500, body = ExceptionError e\<rparr>, st)
             | Inr src \<Rightarrow>
                 (case parse_node d of
                    Inl e \<Rightarrow> (\<lparr>status = 500, body = ExceptionError e\<rparr>, st)
                  | Inr dst \<Rightarrow>
                      if \<not> in_graph src (G st) \<or> \<not> in_graph dst (G st)
                      then (\<lparr>status = 404, body = NotInGraph (g_node (G st))\<rparr>, st)
                      else
                        (case sp (G st) src dst of
                           NetworkXNoPath \<Rightarrow> (\<lparr>status = 404, body = NoPathError\<rparr>, st)
                         | Path p \<Rightarrow>
                             (\<lparr>status = 200,
                               body = PathBody
                                 \<lparr>p_mode = mode st, p_src = src, p_dst = dst, p_path = p,
                                  p_hops = length p - 1,
                                  p_weight_sum =
                                    foldl (\<lambda>acc h. fadd acc (case h_weight h of Some w \<Rightarrow> w | None \<Rightarrow> 1))
                                          0 (path_links st p),
                                  p_links = path_links st p,
                                  p_dst_host_port = host_port st dst\<rparr>\<rparr>, st))))
      | _ \<Rightarrow> (\<lparr>status = 400, body = UsageError\<rparr>, st))"

definition stats_links :: "controller \<Rightarrow> response" where
  "stats_links st = \<lparr>status = 200, body = LinkStatsBody (get_link_stats st)\<rparr>"

subsection \<open>Reading the effects of a run\<close>

text \<open>What a run from \<open>st\<close> to \<open>st'\<close> has sent and logged.\<close>

definition emitted :: "controller \<Rightarrow> controller \<Rightarrow> (dpid \<times> ofmsg) list" where
  "emitted st st' = drop (length (sent st)) (sent st')"

definition logged :: "controller \<Rightarrow> controller \<Rightarrow> logrec list" where
  "logged st st' = drop (length (logs st)) (logs st')"

text \<open>The address a match tests the destination against, if it tests one.\<close>

fun match_dst :: "ofmatch \<Rightarrow> string option" where
  "match_dst (MatchIPv4Dst _ ip) = Some ip"
| "match_dst (MatchArpTpa _ ip) = Some ip"
| "match_dst _ = None"

text \<open>
  The forwarding rules of the pair \<open>(u, d)\<close> among the messages \<open>ms\<close>: the rules sent
  to the switch \<open>u\<close> whose match tests the destination against the address of host \<open>d\<close>.
\<close>

fun is_rule_for :: "dpid \<Rightarrow> nat \<Rightarrow> dpid \<times> ofmsg \<Rightarrow> bool" where
  "is_rule_for u d (u', FlowAdd _ mt _) = (u' = u \<and> match_dst mt = Some (ip_of d))"
| "is_rule_for u d _ = False"

definition rules_for :: "dpid \<Rightarrow> nat \<Rightarrow> (dpid \<times> ofmsg) list \<Rightarrow> (dpid \<times> ofmsg) list" where
  "rules_for u d ms = filter (is_rule_for u d) ms"

fun priority :: "ofmsg \<Rightarrow> nat option" where
  "priority (FlowAdd p _ _) = Some p"
| "priority _ = None"

text \<open>The ports a message outputs to.\<close>

fun output_ports :: "ofmsg \<Rightarrow> nat list" where
  "output_ports (FlowAdd _ _ ins) =
     concat (map (\<lambda>i. case i of ApplyActions acts \<Rightarrow>
                          map (\<lambda>a. case a of OFPActionOutput p \<Rightarrow> p) acts) ins)"
| "output_ports _ = []"

subsection \<open>A small network to evaluate on\<close>

text \<open>
  Four switches: \<open>s1 - s2 - s3\<close> in a line and \<open>s4\<close> on its own; \<open>s3\<close> has no
  connection to the controller. On a network whose links join consecutive switches
  only, the path between two switches is the run of the numbers between them, if all
  its links are there: \<open>line_sp\<close> is what every shortest-path routine answers on
  such a network.
\<close>

definition line_sp :: shortest_path where
  "line_sp g u d =
     (let p = (if u \<le> d then [u..<Suc d] else rev [d..<Suc u]) in
      if list_all (\<lambda>(a, b). b \<in> fst ` set (g_adj g a)) (zip p (drop 1 p)) then Path p
      else NetworkXNoPath)"

definition demo_topo :: topo where
  "demo_topo = \<lparr>switches = [1, 2, 3, 4],
     links = [\<lparr>src_dpid = 1, src_port = 2, dst_dpid = 2, dst_port = 3\<rparr>,
              \<lparr>src_dpid = 2, src_port = 2, dst_dpid = 3, dst_port = 1\<rparr>]\<rparr>"

definition demo_state :: controller where
  "demo_state = init_state\<lparr>datapaths := [1, 2, 4], sw_all_ports := (\<lambda>_. {1, 2, 3})\<rparr>"

text \<open>Three switches for the three outcomes of the deduction of the host port.\<close>

definition ports_state :: controller where
  "ports_state = init_state
     \<lparr>G := \<lparr>g_node = [1, 2, 3], g_adj = (\<lambda>_. [])\<rparr>,
      sw_all_ports := (\<lambda>_. {1, 2, 3}),
      sw_link_ports := (\<lambda>d. if d = 1 then {1, 2} else if d = 2 then {1, 2, 3} else {1})\<rparr>"

text \<open>
  One link, from port 2 of \<open>s1\<close> to port 3 of \<open>s2\<close> (50 Mbps in the bandwidth table),
  as \<^verbatim>\<open>_build_graph\<close> records it, and runs of port-counter replies on it.
\<close>

definition link_state :: controller where
  "link_state = init_state\<lparr>adj := [((1, 2), 2), ((2, 1), 3)]\<rparr>"

definition counters :: "port_no \<Rightarrow> int \<Rightarrow> int \<Rightarrow> int \<Rightarrow> int \<Rightarrow> port_stat" where
  "counters p rxp txp rxb txb =
     \<lparr>ps_port_no = p, ps_rx_packets = rxp, ps_tx_packets = txp, ps_rx_bytes = rxb,
      ps_tx_bytes = txb, ps_rx_dropped = 0, ps_tx_dropped = 0, ps_rx_errors = 0,
      ps_tx_errors = 0\<rparr>"

fun replies :: "(dpid \<times> rat \<times> port_stat list) list \<Rightarrow> controller \<Rightarrow> exn + controller" where
  "replies [] st = Inr st"
| "replies ((d, ts, stats) # rs) st =
     (case port_stats_reply d ts stats st of Inl e \<Rightarrow> Inl e | Inr st' \<Rightarrow> replies rs st')"

text \<open>The first poll after startup: one reply of each switch.\<close>

definition first_poll :: "(dpid \<times> rat \<times> port_stat list) list" where
  "first_poll =
     [(1, 1700000000, [counters 2 80 100 8000 1250000]),
      (2, 1700000000, [counters 3 90 70 9000 7000])]"

text \<open>A second poll five seconds later: 1250000 bytes and 50 packets sent, 45 received.\<close>

definition second_poll :: "(dpid \<times> rat \<times> port_stat list) list" where
  "second_poll =
     [(1, 1700000005, [counters 2 120 150 12000 2500000]),
      (2, 1700000005, [counters 3 135 110 13000 11000])]"

text \<open>A second poll five seconds later in which one byte was sent.\<close>

definition quiet_poll :: "(dpid \<times> rat \<times> port_stat list) list" where
  "quiet_poll =
     [(1, 1700000005, [counters 2 80 101 8000 1250001]),
      (2, 1700000005, [counters 3 91 70 9001 7000])]"

section \<open>Properties\<close>

lemma bw_of_pos: "0 < bw_of u v"
  by (auto simp: bw_of_def link_bw_def default_bw_def undirected_key_def split: option.splits if_splits)

lemma digit_val_digit_char: "n < 10 \<Longrightarrow> digit_val (digit_char n) = n"
proof -
  assume "n < 10"
  then have "n \<in> {0,1,2,3,4,5,6,7,8,9}" by auto
  then show ?thesis by (auto simp: digit_val_def digit_char_def)
qed

lemma str_nat_value: "foldl (\<lambda>a c. 10 * a + digit_val c) 0 (str_nat n) = n"
proof (induction n rule: str_nat.induct)
  case (1 n)
  show ?case
  proof (cases "n < 10")
    case True
    then show ?thesis by (subst str_nat.simps) (simp add: digit_val_digit_char)
  next
    case False
    with 1 show ?thesis
      by (subst str_nat.simps) (simp add: digit_val_digit_char)
  qed
qed

lemma str_nat_inj: "str_nat a = str_nat b \<Longrightarrow> a = b"
  by (metis str_nat_value)

lemma ip_of_inj: "ip_of a = ip_of b \<Longrightarrow> a = b"
  by (simp add: ip_of_def str_nat_inj)

lemma ip_of_eq_iff [simp]: "ip_of a = ip_of b \<longleftrightarrow> a = b"
  using ip_of_inj by auto

subsection \<open>The graph after a rebuild\<close>

lemma distinct_add_node: "distinct (g_node g) \<Longrightarrow> distinct (g_node (add_node n g))"
  by (simp add: add_node_def)

lemma set_add_node: "set (g_node (add_node n g)) = insert n (set (g_node g))"
  by (auto simp: add_node_def)

lemma g_node_add_edge: "g_node (add_edge u v a g) = g_node (add_node v (add_node u g))"
  by (simp add: add_edge_def Let_def)

lemma distinct_add_switches: "distinct (g_node g) \<Longrightarrow> distinct (g_node (add_switches sws g))"
  by (induction sws arbitrary: g) (simp_all add: distinct_add_node)

lemma distinct_add_links:
  "distinct (g_node g) \<Longrightarrow> distinct (g_node (fst (add_links m lks (g, a, lp))))"
  by (induction lks arbitrary: g a lp) (simp_all add: Let_def g_node_add_edge distinct_add_node)

lemma add_node_nonempty: "g_node g \<noteq> [] \<Longrightarrow> g_node (add_node n g) \<noteq> []"
  by (simp add: add_node_def)

lemma add_node_nonempty': "g_node (add_node n g) \<noteq> []"
  by (auto simp: add_node_def)

lemma add_switches_nonempty: "g_node g \<noteq> [] \<Longrightarrow> g_node (add_switches sws g) \<noteq> []"
  by (induction sws arbitrary: g) (simp_all add: add_node_nonempty)

lemma add_links_nonempty: "g_node g \<noteq> [] \<Longrightarrow> g_node (fst (add_links m lks (g, a, lp))) \<noteq> []"
  by (induction lks arbitrary: g a lp) (simp_all add: Let_def g_node_add_edge add_node_nonempty)

lemma add_switches_empty_iff: "g_node (add_switches sws empty_graph) = [] \<longleftrightarrow> sws = []"
  by (cases sws) (auto simp: empty_graph_def add_switches_nonempty add_node_nonempty')

lemma add_links_empty_iff:
  "g_node (fst (add_links m lks (g, a, lp))) = [] \<longleftrightarrow> g_node g = [] \<and> lks = []"
proof (cases lks)
  case Nil
  then show ?thesis by simp
next
  case (Cons lk lks')
  then show ?thesis
    by (simp add: Let_def add_links_nonempty g_node_add_edge add_node_nonempty')
qed

text \<open>The nodes of the rebuilt graph do not depend on the mode.\<close>
lemma add_links_nodes_mode:
  "g_node (fst (add_links m lks (g, a, lp))) = g_node (fst (add_links m' lks (g', a', lp')))"
  if "g_node g = g_node g'"
  using that
proof (induction lks arbitrary: g a lp g' a' lp')
  case Nil
  then show ?case by simp
next
  case (Cons lk lks)
  show ?case
    apply (simp only: add_links.simps Let_def)
    apply (rule Cons.IH)
    using Cons.prems by (simp add: g_node_add_edge add_node_def)
qed

subsection \<open>What each step of a cycle writes\<close>
lemma build_graph_G:
  "G (build_graph tp st) =
     fst (add_links (mode st) (links tp) (add_switches (switches tp) empty_graph, [], (\<lambda>_. {})))"
  by (simp add: build_graph_def split: prod.splits)

lemma build_graph_adj:
  "adj (build_graph tp st) =
     fst (snd (add_links (mode st) (links tp) (add_switches (switches tp) empty_graph, [], (\<lambda>_. {}))))"
  by (simp add: build_graph_def split: prod.splits)

lemma build_graph_link_ports:
  "sw_link_ports (build_graph tp st) =
     snd (snd (add_links (mode st) (links tp) (add_switches (switches tp) empty_graph, [], (\<lambda>_. {}))))"
  by (simp add: build_graph_def split: prod.splits)

lemma build_graph_frame:
  "mode (build_graph tp st) = mode st"
  "datapaths (build_graph tp st) = datapaths st"
  "sw_all_ports (build_graph tp st) = sw_all_ports st"
  "host_port (build_graph tp st) = host_port st"
  "port_stats (build_graph tp st) = port_stats st"
  "port_stats_prev (build_graph tp st) = port_stats_prev st"
  "sent (build_graph tp st) = sent st"
  by (simp_all add: build_graph_def split: prod.splits)

lemma build_graph_logs:
  "logs (build_graph tp st) =
     logs st @ [(INFO, GraphReady (number_of_nodes (G (build_graph tp st)))
                         (number_of_edges (G (build_graph tp st))) (mode st))]"
  by (simp add: build_graph_def split: prod.splits)

lemma build_graph_distinct: "distinct (g_node (G (build_graph tp st)))"
  by (simp add: build_graph_G distinct_add_links distinct_add_switches empty_graph_def)

lemma build_graph_nodes_any:
  "g_node (G (build_graph tp st)) = g_node (G (build_graph tp st'))"
  unfolding build_graph_G by (rule add_links_nodes_mode) simp

lemma build_graph_no_nodes_iff:
  "number_of_nodes (G (build_graph tp st)) = 0 \<longleftrightarrow> switches tp = [] \<and> links tp = []"
  by (auto simp: number_of_nodes_def build_graph_G add_links_empty_iff add_switches_empty_iff)


lemma deduce_loop_fst:
  "fst (deduce_loop allp linkp ds (hp, lg)) =
     (\<lambda>d. if d \<in> set ds then Some (fst (deduce_port (allp d) (linkp d) d)) else hp d)"
proof (induction ds arbitrary: hp lg)
  case Nil
  then show ?case by simp
next
  case (Cons a ds)
  show ?case
    by (auto simp: Cons.IH split: prod.splits)
qed

lemma deduce_loop_snd:
  "snd (deduce_loop allp linkp ds (hp, lg)) =
     lg @ concat (map (\<lambda>d. snd (deduce_port (allp d) (linkp d) d)) ds)"
proof (induction ds arbitrary: hp lg)
  case Nil
  then show ?case by simp
next
  case (Cons a ds)
  show ?case
    by (auto simp: Cons.IH split: prod.splits)
qed

lemma deduce_host_port:
  "host_port (deduce_host_ports st) =
     (\<lambda>d. if d \<in> set (g_node (G st))
          then Some (fst (deduce_port (sw_all_ports st d) (sw_link_ports st d) d)) else None)"
  by (simp add: deduce_host_ports_def case_prod_beta deduce_loop_fst)

lemma deduce_logs:
  "logs (deduce_host_ports st) =
     logs st @ concat (map (\<lambda>d. snd (deduce_port (sw_all_ports st d) (sw_link_ports st d) d))
                        (g_node (G st)))"
  by (simp add: deduce_host_ports_def case_prod_beta deduce_loop_snd)

lemma deduce_frame:
  "mode (deduce_host_ports st) = mode st"
  "G (deduce_host_ports st) = G st"
  "adj (deduce_host_ports st) = adj st"
  "datapaths (deduce_host_ports st) = datapaths st"
  "sw_all_ports (deduce_host_ports st) = sw_all_ports st"
  "sw_link_ports (deduce_host_ports st) = sw_link_ports st"
  "port_stats (deduce_host_ports st) = port_stats st"
  "port_stats_prev (deduce_host_ports st) = port_stats_prev st"
  "sent (deduce_host_ports st) = sent st"
  by (simp_all add: deduce_host_ports_def split: prod.splits)

lemma clear_frame:
  "mode (clear_all_flows st) = mode st"
  "G (clear_all_flows st) = G st"
  "adj (clear_all_flows st) = adj st"
  "datapaths (clear_all_flows st) = datapaths st"
  "sw_all_ports (clear_all_flows st) = sw_all_ports st"
  "sw_link_ports (clear_all_flows st) = sw_link_ports st"
  "host_port (clear_all_flows st) = host_port st"
  "port_stats (clear_all_flows st) = port_stats st"
  "port_stats_prev (clear_all_flows st) = port_stats_prev st"
  "logs (clear_all_flows st) = logs st"
  by (simp_all add: clear_all_flows_def emit_def)

lemma install_all_frame:
  "mode (install_all_destinations sp st) = mode st"
  "G (install_all_destinations sp st) = G st"
  "adj (install_all_destinations sp st) = adj st"
  "datapaths (install_all_destinations sp st) = datapaths st"
  "sw_all_ports (install_all_destinations sp st) = sw_all_ports st"
  "sw_link_ports (install_all_destinations sp st) = sw_link_ports st"
  "host_port (install_all_destinations sp st) = host_port st"
  "port_stats (install_all_destinations sp st) = port_stats st"
  "port_stats_prev (install_all_destinations sp st) = port_stats_prev st"
  by (simp_all add: install_all_destinations_def emit_def)

lemma install_all_sent:
  "sent (install_all_destinations sp st) = sent st @ fst (dest_loop sp st [1..<NUM_HOSTS + 1])"
  by (simp add: install_all_destinations_def emit_def)

lemma install_all_logs:
  "logs (install_all_destinations sp st) =
     logs st @ snd (dest_loop sp st [1..<NUM_HOSTS + 1]) @ [(INFO, FlowsInstalled)]"
  by (simp add: install_all_destinations_def emit_def)

subsection \<open>The loops of the route installer\<close>
lemma tree_loop_fst:
  "fst (tree_loop sp st d ip us) = concat (map (\<lambda>u. fst (tree_step sp st d ip u)) us)"
  by (induction us) (simp_all add: case_prod_beta)

lemma tree_loop_snd:
  "snd (tree_loop sp st d ip us) = concat (map (\<lambda>u. snd (tree_step sp st d ip u)) us)"
  by (induction us) (simp_all add: case_prod_beta)

lemma dest_loop_fst:
  "fst (dest_loop sp st js) =
     concat (map (\<lambda>j. if in_graph j (G st)
                       then fst (install_tree_to_destination sp st j (ip_of j)) else []) js)"
  by (induction js) (simp_all add: case_prod_beta)

lemma dest_loop_snd:
  "snd (dest_loop sp st js) =
     concat (map (\<lambda>j. if in_graph j (G st)
                       then snd (install_tree_to_destination sp st j (ip_of j))
                       else [(WARNING, DstNotInGraph j (ip_of j))]) js)"
  by (induction js) (simp_all add: case_prod_beta)

lemma tree_step_cong:
  assumes "G st = G st'" "adj st = adj st'" "host_port st = host_port st'" "datapaths st = datapaths st'"
  shows "tree_step sp st d ip u = tree_step sp st' d ip u"
  using assms by (simp add: tree_step_def out_port_of_def send_rules_def split: sp_result.splits option.splits)

lemma tree_loop_cong:
  assumes "G st = G st'" "adj st = adj st'" "host_port st = host_port st'" "datapaths st = datapaths st'"
  shows "tree_loop sp st d ip us = tree_loop sp st' d ip us"
  by (induction us) (simp_all add: tree_step_cong [OF assms])

lemma dest_loop_cong:
  assumes "G st = G st'" "adj st = adj st'" "host_port st = host_port st'" "datapaths st = datapaths st'"
  shows "dest_loop sp st js = dest_loop sp st' js"
  by (induction js) (simp_all add: install_tree_to_destination_def tree_loop_cong [OF assms] assms(1))

text \<open>The rules of one pair.\<close>
lemma filter_tree_step:
  "filter (is_rule_for u d) (fst (tree_step sp st j (ip_of j) u')) =
     (if u' = u \<and> j = d then fst (tree_step sp st j (ip_of j) u') else [])"
  by (auto simp: tree_step_def send_rules_def split: sum.splits)

lemma concat_map_single:
  "distinct xs \<Longrightarrow>
     concat (map (\<lambda>x. if x = u then F x else []) xs) = (if u \<in> set xs then F u else [])"
  by (induction xs) auto

lemma rules_for_tree:
  assumes "distinct (g_node (G st))" "u \<in> set (g_node (G st))"
  shows "rules_for u d (fst (install_tree_to_destination sp st j (ip_of j))) =
           (if j = d then fst (tree_step sp st d (ip_of d) u) else [])"
proof -
  have "rules_for u d (fst (install_tree_to_destination sp st j (ip_of j))) =
          concat (map (\<lambda>u'. if u' = u then (if j = d then fst (tree_step sp st j (ip_of j) u') else []) else [])
                    (g_node (G st)))"
    unfolding rules_for_def install_tree_to_destination_def tree_loop_fst filter_concat map_map
    by (rule arg_cong [where f = concat], rule map_cong) (auto simp: filter_tree_step)
  then show ?thesis using assms by (simp add: concat_map_single)
qed

lemma rules_for_dest_loop:
  assumes "distinct (g_node (G st))" "u \<in> set (g_node (G st))"
    and "distinct js" "d \<in> set js" "in_graph d (G st)"
  shows "rules_for u d (fst (dest_loop sp st js)) = fst (tree_step sp st d (ip_of d) u)"
proof -
  have "rules_for u d (fst (dest_loop sp st js)) =
          concat (map (\<lambda>j. if j = d then fst (tree_step sp st j (ip_of j) u) else []) js)"
    unfolding dest_loop_fst
    apply (subst rules_for_def)
    unfolding filter_concat map_map
    apply (rule arg_cong [where f = concat], rule map_cong)
    using assms(5) rules_for_tree [OF assms(1,2), unfolded rules_for_def]
    by (auto simp: in_graph_def)
  then show ?thesis using assms by (simp add: concat_map_single)
qed

subsection \<open>An aborted cycle\<close>

lemma emitted_self [simp]: "emitted st st = []"
  by (simp add: emitted_def)

lemma emitted_append: "sent st' = sent st @ ms \<Longrightarrow> emitted st st' = ms"
  by (simp add: emitted_def)

lemma logged_append: "logs st' = logs st @ ls \<Longrightarrow> logged st st' = ls"
  by (simp add: logged_def)

lemma build_graph_empty:
  assumes "number_of_nodes (G (build_graph tp st)) = 0"
  shows "build_graph tp st =
           st\<lparr>G := empty_graph, adj := [], sw_link_ports := (\<lambda>_. {}),
               logs := logs st @ [(INFO, GraphReady 0 0 (mode st))]\<rparr>"
proof -
  from assms have "switches tp = []" "links tp = []"
    by (simp_all add: build_graph_no_nodes_iff)
  then show ?thesis
    by (simp add: build_graph_def number_of_nodes_def number_of_edges_def empty_graph_def)
qed

lemma rebuild_empty:
  assumes "number_of_nodes (G (build_graph tp st)) = 0"
  shows "rebuild_graph_and_push tp sp st =
           st\<lparr>G := empty_graph, adj := [], sw_link_ports := (\<lambda>_. {}),
               logs := logs st @ [(INFO, GraphReady 0 0 (mode st)), (WARNING, GraphEmpty)]\<rparr>"
  using assms build_graph_empty [OF assms]
  by (simp add: rebuild_graph_and_push_def Let_def emit_def)

lemma no_nodes_any_state:
  "number_of_nodes (G (build_graph tp st)) = 0 \<Longrightarrow> number_of_nodes (G (build_graph tp st')) = 0"
  by (simp add: build_graph_no_nodes_iff)

text \<open>
  C7. When the rebuilt graph has no node, the cycle stops after the warning: it sends
  no message to any switch (no delete, no base rule, no destination rule), leaves the
  host ports as they were and logs nothing but the summary of the graph and the
  warning. The same holds however the cycle was triggered.
\<close>

theorem empty_graph_aborts_cycle:
  assumes "number_of_nodes (G (build_graph tp st)) = 0"
  shows "emitted st (rebuild_graph_and_push tp sp st) = []
       \<and> sent (rebuild_graph_and_push tp sp st) = sent st
       \<and> host_port (rebuild_graph_and_push tp sp st) = host_port st
       \<and> logged st (rebuild_graph_and_push tp sp st) =
           [(INFO, GraphReady 0 0 (mode st)), (WARNING, GraphEmpty)]
       \<and> sent (reinstall tp sp st) = sent st
       \<and> sent (on_switch_enter tp sp st) = sent st
       \<and> sent (on_link_add tp sp st) = sent st
       \<and> sent (port_desc_reply tp sp d ports st) = sent st
       \<and> (\<forall>m st'. set_mode tp sp m st = Inr st' \<longrightarrow> sent st' = sent st)"
proof -
  have any: "number_of_nodes (G (build_graph tp s)) = 0" for s
    using assms by (rule no_nodes_any_state)
  have sent_any: "sent (rebuild_graph_and_push tp sp s) = sent s" for s
    by (simp add: rebuild_empty [OF any])
  have "logs (rebuild_graph_and_push tp sp st) =
          logs st @ [(INFO, GraphReady 0 0 (mode st)), (WARNING, GraphEmpty)]"
    by (simp add: rebuild_empty [OF any])
  then have "logged st (rebuild_graph_and_push tp sp st) =
          [(INFO, GraphReady 0 0 (mode st)), (WARNING, GraphEmpty)]"
    by (rule logged_append)
  moreover have "emitted st (rebuild_graph_and_push tp sp st) = []"
    by (simp add: emitted_def sent_any)
  moreover have "host_port (rebuild_graph_and_push tp sp st) = host_port st"
    by (simp add: rebuild_empty [OF any])
  moreover have "sent (port_desc_reply tp sp d ports st) = sent st"
    by (simp add: port_desc_reply_def Let_def sent_any emit_def)
  moreover have "\<forall>m st'. set_mode tp sp m st = Inr st' \<longrightarrow> sent st' = sent st"
    by (auto simp: set_mode_def sent_any emit_def split: if_splits)
  ultimately show ?thesis
    by (simp add: sent_any reinstall_def on_switch_enter_def on_link_add_def emit_def)
qed

theorem empty_graph_aborts_cycle_witness:
  "number_of_nodes (G (build_graph \<lparr>switches = [], links = []\<rparr> (clear_all_flows demo_state))) = 0
   \<and> sent (clear_all_flows demo_state) \<noteq> []
   \<and> emitted (clear_all_flows demo_state)
        (rebuild_graph_and_push \<lparr>switches = [], links = []\<rparr> line_sp (clear_all_flows demo_state)) = []
   \<and> sent (rebuild_graph_and_push \<lparr>switches = [], links = []\<rparr> line_sp (clear_all_flows demo_state))
       = sent (clear_all_flows demo_state)
   \<and> logged (clear_all_flows demo_state)
        (rebuild_graph_and_push \<lparr>switches = [], links = []\<rparr> line_sp (clear_all_flows demo_state))
       = [(INFO, GraphReady 0 0 ''hops''), (WARNING, GraphEmpty)]"
proof -
  have h: "number_of_nodes (G (build_graph \<lparr>switches = [], links = []\<rparr> (clear_all_flows demo_state))) = 0"
    by (simp add: build_graph_no_nodes_iff)
  have m: "mode (clear_all_flows demo_state) = ''hops''"
    by (simp add: clear_frame demo_state_def init_state_def)
  have s: "sent (clear_all_flows demo_state) \<noteq> []"
    by (simp add: clear_all_flows_def emit_def demo_state_def init_state_def)
  show ?thesis
    using h s empty_graph_aborts_cycle [OF h, of line_sp] by (simp add: m)
qed

text \<open>
  C10. After such an aborted cycle the graph, the directional port map and the link
  ports of every switch are empty, although nothing was sent to the switches: the
  topology query lists no node and no link, a path query finds neither end point in
  the graph, and the link statistics are empty.
\<close>

theorem aborted_cycle_leaves_empty_topology:
  assumes "number_of_nodes (G (build_graph tp st)) = 0"
  shows "G (rebuild_graph_and_push tp sp st) = empty_graph
       \<and> adj (rebuild_graph_and_push tp sp st) = []
       \<and> sw_link_ports (rebuild_graph_and_push tp sp st) = (\<lambda>_. {})
       \<and> sent (rebuild_graph_and_push tp sp st) = sent st
       \<and> topology (rebuild_graph_and_push tp sp st) =
           \<lparr>status = 200, body = TopologyBody (mode st) [] []\<rparr>
       \<and> (\<forall>sp' s t a b. s \<noteq> [] \<and> t \<noteq> [] \<and> parse_node s = Inr a \<and> parse_node t = Inr b \<longrightarrow>
             fst (path sp' (Some s) (Some t) (rebuild_graph_and_push tp sp st)) =
               \<lparr>status = 404, body = NotInGraph []\<rparr>)
       \<and> get_link_stats (rebuild_graph_and_push tp sp st) = []
       \<and> stats_links (rebuild_graph_and_push tp sp st) = \<lparr>status = 200, body = LinkStatsBody []\<rparr>"
proof -
  let ?st = "rebuild_graph_and_push tp sp st"
  have G: "G ?st = empty_graph" and A: "adj ?st = []" and M: "mode ?st = mode st"
    by (simp_all add: rebuild_empty [OF assms])
  have "topology ?st = \<lparr>status = 200, body = TopologyBody (mode st) [] []\<rparr>"
    by (simp add: topology_def G M graph_edges_def empty_graph_def)
  moreover have "get_link_stats ?st = []"
    by (simp add: get_link_stats_def A List.map_filter_simps)
  moreover have "\<forall>sp' s t a b. s \<noteq> [] \<and> t \<noteq> [] \<and> parse_node s = Inr a \<and> parse_node t = Inr b \<longrightarrow>
             fst (path sp' (Some s) (Some t) ?st) = \<lparr>status = 404, body = NotInGraph []\<rparr>"
    by (simp add: path_def G in_graph_def empty_graph_def)
  ultimately show ?thesis
    by (simp add: stats_links_def) (simp add: rebuild_empty [OF assms])
qed

theorem aborted_cycle_leaves_empty_topology_witness:
  "number_of_nodes (G (build_graph \<lparr>switches = [], links = []\<rparr>
      (rebuild_graph_and_push demo_topo line_sp demo_state))) = 0
   \<and> adj (rebuild_graph_and_push demo_topo line_sp demo_state) \<noteq> []
   \<and> adj (rebuild_graph_and_push \<lparr>switches = [], links = []\<rparr> line_sp
           (rebuild_graph_and_push demo_topo line_sp demo_state)) = []
   \<and> sent (rebuild_graph_and_push \<lparr>switches = [], links = []\<rparr> line_sp
           (rebuild_graph_and_push demo_topo line_sp demo_state))
       = sent (rebuild_graph_and_push demo_topo line_sp demo_state)
   \<and> fst (path line_sp (Some ''s1'') (Some ''10.0.0.2'')
           (rebuild_graph_and_push \<lparr>switches = [], links = []\<rparr> line_sp
              (rebuild_graph_and_push demo_topo line_sp demo_state)))
       = \<lparr>status = 404, body = NotInGraph []\<rparr>
   \<and> get_link_stats (rebuild_graph_and_push \<lparr>switches = [], links = []\<rparr> line_sp
           (rebuild_graph_and_push demo_topo line_sp demo_state)) = []"
proof -
  let ?st = "rebuild_graph_and_push demo_topo line_sp demo_state"
  have h: "number_of_nodes (G (build_graph \<lparr>switches = [], links = []\<rparr> ?st)) = 0"
    by (simp add: build_graph_no_nodes_iff)
  have n: "number_of_nodes (G (build_graph demo_topo demo_state)) \<noteq> 0"
    by (simp add: build_graph_no_nodes_iff demo_topo_def)
  have a: "adj ?st \<noteq> []"
    using n by (simp add: rebuild_graph_and_push_def Let_def install_all_frame clear_frame
        deduce_frame build_graph_adj demo_topo_def)
  have p1: "parse_node ''s1'' = Inr 1"
    by (simp add: parse_node_def strip_def py_isspace_def isdigit_def is_digit_def is_decimal_def
        py_int_def Let_def int_max_str_digits_def digit_val_def)
  have p2: "parse_node ''10.0.0.2'' = Inr 2"
    by (simp add: parse_node_def strip_def py_isspace_def isdigit_def is_digit_def is_decimal_def
        py_int_def Let_def int_max_str_digits_def digit_val_def)
  from aborted_cycle_leaves_empty_topology [OF h, of line_sp]
  have "fst (path line_sp (Some ''s1'') (Some ''10.0.0.2'')
           (rebuild_graph_and_push \<lparr>switches = [], links = []\<rparr> line_sp ?st))
       = \<lparr>status = 404, body = NotInGraph []\<rparr>"
    using p1 p2 by blast
  then show ?thesis
    using h a aborted_cycle_leaves_empty_topology [OF h, of line_sp] by simp
qed

subsection \<open>The host ports\<close>

lemma deduce_port_unique: "cand = {p} \<Longrightarrow> allp - linkp = cand \<Longrightarrow> fst (deduce_port allp linkp d) = p"
  by (simp add: deduce_port_def)

lemma deduce_port_none:
  assumes "allp - linkp = {}"
  shows "deduce_port allp linkp d = (1, [(WARNING, NoCandidate d), (INFO, HostPort d 1)])"
  unfolding deduce_port_def Let_def assms by simp

lemma deduce_port_many:
  "1 < card (allp - linkp) \<Longrightarrow>
     deduce_port allp linkp d =
       (Min (allp - linkp),
        [(WARNING, MultipleCandidates d (sorted_list_of_set (allp - linkp)) (Min (allp - linkp))),
         (INFO, HostPort d (Min (allp - linkp)))])"
  by (simp add: deduce_port_def Let_def)

lemma deduce_logged:
  "logged st (deduce_host_ports st) =
     concat (map (\<lambda>d. snd (deduce_port (sw_all_ports st d) (sw_link_ports st d) d)) (g_node (G st)))"
  by (rule logged_append) (simp add: deduce_logs)

text \<open>
  C3. For every switch of the graph, with the candidates being the usable ports that
  carry no link: one candidate is the host port; no candidate gives port 1 and a
  warning; several candidates give the smallest one and a warning. The three examples
  of the specification follow.
\<close>

theorem host_port_deduction:
  "\<forall>d \<in> set (g_node (G st)).
      (\<forall>p. sw_all_ports st d - sw_link_ports st d = {p} \<longrightarrow>
           host_port (deduce_host_ports st) d = Some p)
    \<and> (sw_all_ports st d - sw_link_ports st d = {} \<longrightarrow>
           host_port (deduce_host_ports st) d = Some 1
         \<and> (WARNING, NoCandidate d) \<in> set (logged st (deduce_host_ports st)))
    \<and> (1 < card (sw_all_ports st d - sw_link_ports st d) \<longrightarrow>
           host_port (deduce_host_ports st) d = Some (Min (sw_all_ports st d - sw_link_ports st d))
         \<and> Min (sw_all_ports st d - sw_link_ports st d) \<in> sw_all_ports st d - sw_link_ports st d
         \<and> (\<forall>q \<in> sw_all_ports st d - sw_link_ports st d.
               Min (sw_all_ports st d - sw_link_ports st d) \<le> q)
         \<and> (WARNING, MultipleCandidates d
                (sorted_list_of_set (sw_all_ports st d - sw_link_ports st d))
                (Min (sw_all_ports st d - sw_link_ports st d)))
             \<in> set (logged st (deduce_host_ports st)))
    \<and> (sw_all_ports st d = {1, 2, 3} \<and> sw_link_ports st d = {2, 3} \<longrightarrow>
           host_port (deduce_host_ports st) d = Some 1)
    \<and> (sw_all_ports st d = {1, 2, 3} \<and> sw_link_ports st d = {1, 2, 3} \<longrightarrow>
           host_port (deduce_host_ports st) d = Some 1
         \<and> (WARNING, NoCandidate d) \<in> set (logged st (deduce_host_ports st)))
    \<and> (sw_all_ports st d = {1, 2, 3} \<and> sw_link_ports st d = {3} \<longrightarrow>
           host_port (deduce_host_ports st) d = Some 1
         \<and> (\<exists>c. (WARNING, MultipleCandidates d c 1) \<in> set (logged st (deduce_host_ports st))))"
proof
  fix d assume d: "d \<in> set (g_node (G st))"
  let ?cand = "sw_all_ports st d - sw_link_ports st d"
  let ?st = "deduce_host_ports st"
  have hp: "host_port ?st d = Some (fst (deduce_port (sw_all_ports st d) (sw_link_ports st d) d))"
    using d by (simp add: deduce_host_port)
  have lg: "set (snd (deduce_port (sw_all_ports st d) (sw_link_ports st d) d)) \<subseteq> set (logged st ?st)"
    using d by (auto simp: deduce_logged)
  have one: "\<forall>p. ?cand = {p} \<longrightarrow> host_port ?st d = Some p"
    by (simp add: hp deduce_port_def)
  have none: "?cand = {} \<longrightarrow> host_port ?st d = Some 1 \<and> (WARNING, NoCandidate d) \<in> set (logged st ?st)"
    using lg by (auto simp: hp deduce_port_none)
  have many: "1 < card ?cand \<longrightarrow>
           host_port ?st d = Some (Min ?cand) \<and> Min ?cand \<in> ?cand \<and> (\<forall>q \<in> ?cand. Min ?cand \<le> q)
         \<and> (WARNING, MultipleCandidates d (sorted_list_of_set ?cand) (Min ?cand)) \<in> set (logged st ?st)"
  proof
    assume c: "1 < card ?cand"
    then have fin: "finite ?cand"
      by (rule_tac ccontr) simp
    from c have ne: "?cand \<noteq> {}"
      by (rule_tac notI) simp
    have "(WARNING, MultipleCandidates d (sorted_list_of_set ?cand) (Min ?cand)) \<in> set (logged st ?st)"
      using lg by (simp add: deduce_port_many [OF c])
    moreover have "host_port ?st d = Some (Min ?cand)"
      by (simp add: hp deduce_port_many [OF c])
    moreover have "Min ?cand \<in> ?cand"
      using fin ne by (rule Min_in)
    moreover have "\<forall>q \<in> ?cand. Min ?cand \<le> q"
      using fin by (simp del: Diff_iff)
    ultimately show "host_port ?st d = Some (Min ?cand) \<and> Min ?cand \<in> ?cand \<and> (\<forall>q \<in> ?cand. Min ?cand \<le> q)
         \<and> (WARNING, MultipleCandidates d (sorted_list_of_set ?cand) (Min ?cand)) \<in> set (logged st ?st)"
      by (intro conjI)
  qed
  have e1: "sw_all_ports st d = {1, 2, 3} \<and> sw_link_ports st d = {2, 3} \<longrightarrow> host_port ?st d = Some 1"
  proof
    assume a: "sw_all_ports st d = {1, 2, 3} \<and> sw_link_ports st d = {2, 3}"
    then have "?cand = {1}" by auto
    with one show "host_port ?st d = Some 1" by blast
  qed
  have e2: "sw_all_ports st d = {1, 2, 3} \<and> sw_link_ports st d = {1, 2, 3} \<longrightarrow>
           host_port ?st d = Some 1 \<and> (WARNING, NoCandidate d) \<in> set (logged st ?st)"
    using none by auto
  have e3: "sw_all_ports st d = {1, 2, 3} \<and> sw_link_ports st d = {3} \<longrightarrow>
           host_port ?st d = Some 1
         \<and> (\<exists>c. (WARNING, MultipleCandidates d c 1) \<in> set (logged st ?st))"
  proof
    assume a: "sw_all_ports st d = {1, 2, 3} \<and> sw_link_ports st d = {3}"
    then have c: "?cand = {1, 2}" by auto
    have "1 < card ?cand" and m1: "Min ?cand = 1" unfolding c by simp_all
    with many have "host_port ?st d = Some (Min ?cand)
         \<and> (WARNING, MultipleCandidates d (sorted_list_of_set ?cand) (Min ?cand)) \<in> set (logged st ?st)"
      by (simp del: Diff_iff)
    then show "host_port ?st d = Some 1
         \<and> (\<exists>c. (WARNING, MultipleCandidates d c 1) \<in> set (logged st ?st))"
      unfolding m1 by (intro conjI exI) (erule conjunct1, erule conjunct2)
  qed
  from one none many e1 e2 e3
  show "(\<forall>p. ?cand = {p} \<longrightarrow> host_port ?st d = Some p)
    \<and> (?cand = {} \<longrightarrow> host_port ?st d = Some 1 \<and> (WARNING, NoCandidate d) \<in> set (logged st ?st))
    \<and> (1 < card ?cand \<longrightarrow>
           host_port ?st d = Some (Min ?cand) \<and> Min ?cand \<in> ?cand \<and> (\<forall>q \<in> ?cand. Min ?cand \<le> q)
         \<and> (WARNING, MultipleCandidates d (sorted_list_of_set ?cand) (Min ?cand)) \<in> set (logged st ?st))
    \<and> (sw_all_ports st d = {1, 2, 3} \<and> sw_link_ports st d = {2, 3} \<longrightarrow> host_port ?st d = Some 1)
    \<and> (sw_all_ports st d = {1, 2, 3} \<and> sw_link_ports st d = {1, 2, 3} \<longrightarrow>
           host_port ?st d = Some 1 \<and> (WARNING, NoCandidate d) \<in> set (logged st ?st))
    \<and> (sw_all_ports st d = {1, 2, 3} \<and> sw_link_ports st d = {3} \<longrightarrow>
           host_port ?st d = Some 1
         \<and> (\<exists>c. (WARNING, MultipleCandidates d c 1) \<in> set (logged st ?st)))"
    by (intro conjI)
qed

theorem host_port_deduction_witness:
  "set (g_node (G ports_state)) = {1, 2, 3}
   \<and> sw_all_ports ports_state 1 - sw_link_ports ports_state 1 = {3}
   \<and> host_port (deduce_host_ports ports_state) 1 = Some 3
   \<and> sw_all_ports ports_state 2 - sw_link_ports ports_state 2 = {}
   \<and> host_port (deduce_host_ports ports_state) 2 = Some 1
   \<and> (WARNING, NoCandidate 2) \<in> set (logged ports_state (deduce_host_ports ports_state))
   \<and> sw_all_ports ports_state 3 - sw_link_ports ports_state 3 = {2, 3}
   \<and> host_port (deduce_host_ports ports_state) 3 = Some 2
   \<and> (WARNING, MultipleCandidates 3 [2, 3] 2) \<in> set (logged ports_state (deduce_host_ports ports_state))"
proof -
  have n: "set (g_node (G ports_state)) = {1, 2, 3}"
    by (simp add: ports_state_def init_state_def)
  have c1: "sw_all_ports ports_state 1 - sw_link_ports ports_state 1 = {3}"
    and c2: "sw_all_ports ports_state 2 - sw_link_ports ports_state 2 = {}"
    and c3: "sw_all_ports ports_state 3 - sw_link_ports ports_state 3 = {2, 3}"
    by (auto simp: ports_state_def init_state_def)
  have m: "Min {2, 3 :: nat} = 2" "1 < card {2, 3 :: nat}" "sorted_list_of_set {2, 3 :: nat} = [2, 3]"
    by simp_all
  have "1 \<in> set (g_node (G ports_state))" "2 \<in> set (g_node (G ports_state))"
    "3 \<in> set (g_node (G ports_state))"
    by (simp_all add: n)
  with host_port_deduction [of ports_state]
  have d1: "\<forall>p. sw_all_ports ports_state 1 - sw_link_ports ports_state 1 = {p} \<longrightarrow>
           host_port (deduce_host_ports ports_state) 1 = Some p"
   and d2: "sw_all_ports ports_state 2 - sw_link_ports ports_state 2 = {} \<longrightarrow>
           host_port (deduce_host_ports ports_state) 2 = Some 1
         \<and> (WARNING, NoCandidate 2) \<in> set (logged ports_state (deduce_host_ports ports_state))"
   and d3: "1 < card (sw_all_ports ports_state 3 - sw_link_ports ports_state 3) \<longrightarrow>
           host_port (deduce_host_ports ports_state) 3
             = Some (Min (sw_all_ports ports_state 3 - sw_link_ports ports_state 3))
         \<and> (WARNING, MultipleCandidates 3
                (sorted_list_of_set (sw_all_ports ports_state 3 - sw_link_ports ports_state 3))
                (Min (sw_all_ports ports_state 3 - sw_link_ports ports_state 3)))
             \<in> set (logged ports_state (deduce_host_ports ports_state))"
    by blast+
  from d1 c1 have "host_port (deduce_host_ports ports_state) 1 = Some 3" by blast
  moreover from d2 c2 have "host_port (deduce_host_ports ports_state) 2 = Some 1
         \<and> (WARNING, NoCandidate 2) \<in> set (logged ports_state (deduce_host_ports ports_state))" by blast
  moreover from d3 have "host_port (deduce_host_ports ports_state) 3 = Some 2
         \<and> (WARNING, MultipleCandidates 3 [2, 3] 2) \<in> set (logged ports_state (deduce_host_ports ports_state))"
    unfolding c3 m by simp
  ultimately show ?thesis using n c1 c2 c3 by simp
qed

subsection \<open>A full cycle\<close>

lemma rebuild_unfold:
  "number_of_nodes (G (build_graph tp st)) \<noteq> 0 \<Longrightarrow>
     rebuild_graph_and_push tp sp st =
       install_all_destinations sp (clear_all_flows (deduce_host_ports (build_graph tp st)))"
  by (simp add: rebuild_graph_and_push_def Let_def)

lemma cycle_fields:
  assumes "number_of_nodes (G (build_graph tp st)) \<noteq> 0"
  shows "G (rebuild_graph_and_push tp sp st) = G (build_graph tp st)"
    and "adj (rebuild_graph_and_push tp sp st) = adj (build_graph tp st)"
    and "sw_link_ports (rebuild_graph_and_push tp sp st) = sw_link_ports (build_graph tp st)"
    and "host_port (rebuild_graph_and_push tp sp st) = host_port (deduce_host_ports (build_graph tp st))"
    and "datapaths (rebuild_graph_and_push tp sp st) = datapaths st"
    and "mode (rebuild_graph_and_push tp sp st) = mode st"
    and "sw_all_ports (rebuild_graph_and_push tp sp st) = sw_all_ports st"
  by (simp_all add: rebuild_unfold [OF assms] install_all_frame clear_frame deduce_frame build_graph_frame)

lemma rebuild_frame:
  "datapaths (rebuild_graph_and_push tp sp st) = datapaths st"
  "mode (rebuild_graph_and_push tp sp st) = mode st"
  "sw_all_ports (rebuild_graph_and_push tp sp st) = sw_all_ports st"
  by (cases "number_of_nodes (G (build_graph tp st)) = 0";
      simp add: rebuild_empty cycle_fields)+

lemma cycle_emitted:
  assumes "number_of_nodes (G (build_graph tp st)) \<noteq> 0"
  shows "emitted st (rebuild_graph_and_push tp sp st) =
           concat (map (\<lambda>dp. (dp, FlowDeleteAll) # install_base_rules dp) (datapaths st))
           @ fst (dest_loop sp (rebuild_graph_and_push tp sp st) [1..<NUM_HOSTS + 1])"
proof -
  let ?S = "clear_all_flows (deduce_host_ports (build_graph tp st))"
  let ?st = "rebuild_graph_and_push tp sp st"
  have "dest_loop sp ?S [1..<NUM_HOSTS + 1] = dest_loop sp ?st [1..<NUM_HOSTS + 1]"
    by (rule dest_loop_cong)
       (simp_all add: cycle_fields [OF assms] clear_frame deduce_frame build_graph_frame)
  moreover have "sent ?st = sent ?S @ fst (dest_loop sp ?S [1..<NUM_HOSTS + 1])"
    by (simp add: rebuild_unfold [OF assms] install_all_sent)
  moreover have "sent ?S = sent st
      @ concat (map (\<lambda>dp. (dp, FlowDeleteAll) # install_base_rules dp) (datapaths st))"
    by (simp add: clear_all_flows_def emit_def deduce_frame build_graph_frame)
  ultimately show ?thesis
    by (intro emitted_append) simp
qed

lemma cycle_logged:
  assumes "number_of_nodes (G (build_graph tp st)) \<noteq> 0"
  shows "logged st (rebuild_graph_and_push tp sp st) =
           logged st (deduce_host_ports (build_graph tp st))
           @ snd (dest_loop sp (rebuild_graph_and_push tp sp st) [1..<NUM_HOSTS + 1])
           @ [(INFO, FlowsInstalled)]"
proof -
  let ?S = "clear_all_flows (deduce_host_ports (build_graph tp st))"
  let ?st = "rebuild_graph_and_push tp sp st"
  have "dest_loop sp ?S [1..<NUM_HOSTS + 1] = dest_loop sp ?st [1..<NUM_HOSTS + 1]"
    by (rule dest_loop_cong)
       (simp_all add: cycle_fields [OF assms] clear_frame deduce_frame build_graph_frame)
  moreover have "logs ?st = logs ?S @ snd (dest_loop sp ?S [1..<NUM_HOSTS + 1]) @ [(INFO, FlowsInstalled)]"
    by (simp add: rebuild_unfold [OF assms] install_all_logs)
  moreover have "logs ?S = logs st @ logged st (deduce_host_ports (build_graph tp st))"
    by (simp add: clear_frame logged_def deduce_logs build_graph_logs)
  ultimately show ?thesis
    by (intro logged_append) simp
qed

lemma rules_for_append: "rules_for u d (xs @ ys) = rules_for u d xs @ rules_for u d ys"
  by (simp add: rules_for_def)

lemma rules_for_clear:
  "rules_for u d (concat (map (\<lambda>dp. (dp, FlowDeleteAll) # install_base_rules dp) dps)) = []"
  by (induction dps) (simp_all add: rules_for_def install_base_rules_def)

lemma cycle_rules_for:
  assumes "number_of_nodes (G (build_graph tp st)) \<noteq> 0"
    and "1 \<le> d" "d \<le> NUM_HOSTS"
    and "in_graph d (G (rebuild_graph_and_push tp sp st))"
    and "in_graph u (G (rebuild_graph_and_push tp sp st))"
  shows "rules_for u d (emitted st (rebuild_graph_and_push tp sp st)) =
           fst (tree_step sp (rebuild_graph_and_push tp sp st) d (ip_of d) u)"
proof -
  let ?st = "rebuild_graph_and_push tp sp st"
  have "distinct (g_node (G ?st))"
    by (simp add: cycle_fields [OF assms(1)] build_graph_distinct)
  moreover have "u \<in> set (g_node (G ?st))"
    using assms(5) by (simp add: in_graph_def)
  moreover have "distinct [1..<NUM_HOSTS + 1]" by simp
  moreover have "d \<in> set [1..<NUM_HOSTS + 1]" using assms(2,3) by auto
  ultimately have "rules_for u d (fst (dest_loop sp ?st [1..<NUM_HOSTS + 1])) =
      fst (tree_step sp ?st d (ip_of d) u)"
    using assms(4) by (rule rules_for_dest_loop)
  then show ?thesis
    by (simp add: cycle_emitted [OF assms(1)] rules_for_append rules_for_clear)
qed

lemma cycle_host_port:
  assumes "number_of_nodes (G (build_graph tp st)) \<noteq> 0"
    and "in_graph d (G (rebuild_graph_and_push tp sp st))"
  shows "host_port (rebuild_graph_and_push tp sp st) d =
     Some (fst (deduce_port (sw_all_ports st d) (sw_link_ports (rebuild_graph_and_push tp sp st) d) d))"
  using assms(2)
  by (simp add: cycle_fields [OF assms(1)] deduce_host_port build_graph_frame in_graph_def)

text \<open>
  C1. In a cycle that is not aborted, for a destination \<open>d\<close> in 1..14 and a switch \<open>u\<close>,
  both nodes of the rebuilt graph: at \<open>u = d\<close> the rules of the pair output to the
  deduced host port of \<open>d\<close>; at \<open>u \<noteq> d\<close>, if the library returns a path and the port
  map has a port from \<open>u\<close> to the second node of that path, they output to that port.
  (The rules are there if \<open>u\<close> has a datapath.)
\<close>

theorem first_hop_ports:
  assumes "number_of_nodes (G (build_graph tp st)) \<noteq> 0"
    and "1 \<le> d" "d \<le> NUM_HOSTS"
    and "in_graph d (G (rebuild_graph_and_push tp sp st))"
    and "in_graph u (G (rebuild_graph_and_push tp sp st))"
  shows "(u = d \<longrightarrow>
            host_port (rebuild_graph_and_push tp sp st) d =
              Some (fst (deduce_port (sw_all_ports st d)
                           (sw_link_ports (rebuild_graph_and_push tp sp st) d) d))
          \<and> (\<forall>hp. host_port (rebuild_graph_and_push tp sp st) d = Some hp \<longrightarrow>
                map (output_ports \<circ> snd)
                    (rules_for u d (emitted st (rebuild_graph_and_push tp sp st))) =
                  (if u \<in> set (datapaths st) then [[hp], [hp]] else [])))
       \<and> (u \<noteq> d \<longrightarrow>
           (\<forall>p port. sp (G (rebuild_graph_and_push tp sp st)) u d = Path p \<and> 2 \<le> length p
                \<and> map_of (adj (rebuild_graph_and_push tp sp st)) (u, p ! 1) = Some port \<longrightarrow>
                map (output_ports \<circ> snd)
                    (rules_for u d (emitted st (rebuild_graph_and_push tp sp st))) =
                  (if u \<in> set (datapaths st) then [[port], [port]] else [])))"
proof -
  let ?st = "rebuild_graph_and_push tp sp st"
  note r = cycle_rules_for [OF assms]
  have dp: "datapaths ?st = datapaths st" by (rule rebuild_frame)
  show ?thesis
    unfolding r
    by (auto simp: tree_step_def out_port_of_def send_rules_def dp cycle_host_port [OF assms(1,4)])
qed

subsection \<open>The small network, evaluated\<close>

lemma demo_nonempty: "number_of_nodes (G (build_graph demo_topo demo_state)) \<noteq> 0"
  by (simp add: build_graph_no_nodes_iff demo_topo_def)

lemma demo_nodes: "g_node (G (rebuild_graph_and_push demo_topo line_sp demo_state)) = [1, 2, 3, 4]"
  unfolding cycle_fields [OF demo_nonempty] build_graph_G
  by (simp add: demo_topo_def demo_state_def init_state_def empty_graph_def add_node_def
      add_edge_def Let_def)

lemma demo_adj:
  "adj (rebuild_graph_and_push demo_topo line_sp demo_state) =
     [((1, 2), 2), ((2, 1), 3), ((2, 3), 2), ((3, 2), 1)]"
  unfolding cycle_fields [OF demo_nonempty] build_graph_adj
  by (simp add: demo_topo_def Let_def)

lemma demo_link_ports:
  "sw_link_ports (rebuild_graph_and_push demo_topo line_sp demo_state) =
     (\<lambda>d. if d = 1 then {2} else if d = 2 then {2, 3} else if d = 3 then {1} else {})"
  unfolding cycle_fields [OF demo_nonempty] build_graph_link_ports
  by (auto simp: demo_topo_def Let_def fun_eq_iff)

lemma demo_datapaths: "datapaths demo_state = [1, 2, 4]"
  by (simp add: demo_state_def init_state_def)

lemma demo_all_ports: "sw_all_ports demo_state = (\<lambda>_. {1, 2, 3})"
  by (simp add: demo_state_def init_state_def)

lemma demo_neighbours:
  "fst ` set (g_adj (G (rebuild_graph_and_push demo_topo sp demo_state)) 1) = {2}"
  "fst ` set (g_adj (G (rebuild_graph_and_push demo_topo sp demo_state)) 2) = {1, 3}"
  "fst ` set (g_adj (G (rebuild_graph_and_push demo_topo sp demo_state)) 3) = {2}"
  "fst ` set (g_adj (G (rebuild_graph_and_push demo_topo sp demo_state)) 4) = {}"
  unfolding cycle_fields [OF demo_nonempty] build_graph_G
  by (auto simp: demo_topo_def demo_state_def init_state_def empty_graph_def add_node_def
      add_edge_def Let_def)

lemma line_sp_eval:
  "line_sp g 1 3 =
     (if 2 \<in> fst ` set (g_adj g 1) \<and> 3 \<in> fst ` set (g_adj g 2) then Path [1, 2, 3]
      else NetworkXNoPath)"
  "line_sp g 3 1 =
     (if 2 \<in> fst ` set (g_adj g 3) \<and> 1 \<in> fst ` set (g_adj g 2) then Path [3, 2, 1]
      else NetworkXNoPath)"
  "line_sp g 1 4 =
     (if 2 \<in> fst ` set (g_adj g 1) \<and> 3 \<in> fst ` set (g_adj g 2) \<and> 4 \<in> fst ` set (g_adj g 3)
      then Path [1, 2, 3, 4] else NetworkXNoPath)"
proof -
  have u: "[1..<Suc 3] = [1, 2, 3]" "[1..<Suc 4] = [1, 2, 3, 4]"
    by (simp_all add: upt_conv_Cons)
  show "line_sp g 1 3 =
     (if 2 \<in> fst ` set (g_adj g 1) \<and> 3 \<in> fst ` set (g_adj g 2) then Path [1, 2, 3]
      else NetworkXNoPath)"
    unfolding line_sp_def Let_def u by simp
  show "line_sp g 3 1 =
     (if 2 \<in> fst ` set (g_adj g 3) \<and> 1 \<in> fst ` set (g_adj g 2) then Path [3, 2, 1]
      else NetworkXNoPath)"
    unfolding line_sp_def Let_def u by simp
  show "line_sp g 1 4 =
     (if 2 \<in> fst ` set (g_adj g 1) \<and> 3 \<in> fst ` set (g_adj g 2) \<and> 4 \<in> fst ` set (g_adj g 3)
      then Path [1, 2, 3, 4] else NetworkXNoPath)"
    unfolding line_sp_def Let_def u by simp
qed

lemma demo_paths:
  "line_sp (G (rebuild_graph_and_push demo_topo line_sp demo_state)) 1 3 = Path [1, 2, 3]"
  "line_sp (G (rebuild_graph_and_push demo_topo line_sp demo_state)) 3 1 = Path [3, 2, 1]"
  "line_sp (G (rebuild_graph_and_push demo_topo line_sp demo_state)) 1 4 = NetworkXNoPath"
  unfolding line_sp_eval demo_neighbours by simp_all

lemma demo_host_port_1: "host_port (rebuild_graph_and_push demo_topo line_sp demo_state) 1 = Some 1"
proof -
  have "{1, 2, 3} - {2 :: nat} = {1, 3}" by auto
  then show ?thesis
    by (simp add: cycle_host_port [OF demo_nonempty] in_graph_def demo_nodes demo_link_ports
        demo_all_ports deduce_port_def Let_def)
qed

theorem first_hop_ports_witness:
  "number_of_nodes (G (build_graph demo_topo demo_state)) \<noteq> 0
   \<and> in_graph 1 (G (rebuild_graph_and_push demo_topo line_sp demo_state))
   \<and> in_graph 3 (G (rebuild_graph_and_push demo_topo line_sp demo_state))
   \<and> 1 \<in> set (datapaths demo_state)
   \<and> line_sp (G (rebuild_graph_and_push demo_topo line_sp demo_state)) 1 3 = Path [1, 2, 3]
   \<and> map_of (adj (rebuild_graph_and_push demo_topo line_sp demo_state)) (1, 2) = Some 2
   \<and> map (output_ports \<circ> snd)
          (rules_for 1 3 (emitted demo_state (rebuild_graph_and_push demo_topo line_sp demo_state)))
       = [[2], [2]]
   \<and> host_port (rebuild_graph_and_push demo_topo line_sp demo_state) 1 = Some 1
   \<and> map (output_ports \<circ> snd)
          (rules_for 1 1 (emitted demo_state (rebuild_graph_and_push demo_topo line_sp demo_state)))
       = [[1], [1]]"
proof -
  let ?st = "rebuild_graph_and_push demo_topo line_sp demo_state"
  have g1: "in_graph 1 (G ?st)" and g3: "in_graph 3 (G ?st)"
    by (simp_all add: in_graph_def demo_nodes)
  have b: "(1::nat) \<le> 1" "(1::nat) \<le> NUM_HOSTS" "(1::nat) \<le> 3" "(3::nat) \<le> NUM_HOSTS"
    by (simp_all add: NUM_HOSTS_def)
  have a: "map_of (adj ?st) (1, 2) = Some 2"
    by (simp add: demo_adj)
  have dp: "1 \<in> set (datapaths demo_state)"
    by (simp add: demo_datapaths)
  have "map (output_ports \<circ> snd) (rules_for 1 3 (emitted demo_state ?st)) = [[2], [2]]"
    using first_hop_ports [OF demo_nonempty b(3,4) g3 g1] demo_paths(1) a dp by simp
  moreover have "map (output_ports \<circ> snd) (rules_for 1 1 (emitted demo_state ?st)) = [[1], [1]]"
    using first_hop_ports [OF demo_nonempty b(1,2) g1 g1] demo_host_port_1 dp by simp
  ultimately show ?thesis
    using demo_nonempty g1 g3 dp demo_paths(1) a demo_host_port_1 by simp
qed

lemma demo_out_port_31:
  "out_port_of line_sp (rebuild_graph_and_push demo_topo line_sp demo_state) 1 (ip_of 1) 3 = Inr 1"
  unfolding out_port_of_def demo_paths demo_adj by simp

lemma demo_in_graph:
  "in_graph 1 (G (rebuild_graph_and_push demo_topo line_sp demo_state))"
  "in_graph 2 (G (rebuild_graph_and_push demo_topo line_sp demo_state))"
  "in_graph 3 (G (rebuild_graph_and_push demo_topo line_sp demo_state))"
  "in_graph 4 (G (rebuild_graph_and_push demo_topo line_sp demo_state))"
  by (simp_all add: in_graph_def demo_nodes)

text \<open>
  C4, as amended. In a cycle that is not aborted, for a pair \<open>(u, d)\<close> of graph nodes,
  \<open>d\<close> in 1..14, whose output port is determined: if \<open>u\<close> has a datapath, the rules of
  the pair are exactly two, the first matching ethertype 0x0800 and IPv4 destination
  10.0.0.d, the second ethertype 0x0806 and ARP target address 10.0.0.d, each with the
  single action of an output to that port, both at priority 100; if \<open>u\<close> has no
  datapath, there is none. The base rules have the priorities 500 and 0: the priority
  100 is above that of the table-miss rule and below that of the discovery rule.
\<close>

theorem destination_rules_shape:
  assumes "number_of_nodes (G (build_graph tp st)) \<noteq> 0"
    and "1 \<le> d" "d \<le> NUM_HOSTS"
    and "in_graph d (G (rebuild_graph_and_push tp sp st))"
    and "in_graph u (G (rebuild_graph_and_push tp sp st))"
    and "out_port_of sp (rebuild_graph_and_push tp sp st) d (ip_of d) u = Inr port"
  shows "rules_for u d (emitted st (rebuild_graph_and_push tp sp st)) =
           (if u \<in> set (datapaths st)
            then [(u, FlowAdd 100 (MatchIPv4Dst 0x0800 (''10.0.0.'' @ str_nat d))
                        [ApplyActions [OFPActionOutput port]]),
                  (u, FlowAdd 100 (MatchArpTpa 0x0806 (''10.0.0.'' @ str_nat d))
                        [ApplyActions [OFPActionOutput port]])]
            else [])
       \<and> map (priority \<circ> snd) (install_base_rules u) = [Some 500, Some 0]
       \<and> (\<forall>r \<in> set (rules_for u d (emitted st (rebuild_graph_and_push tp sp st))).
             \<exists>p. priority (snd r) = Some p \<and> 0 < p \<and> p < 500)"
proof -
  have dp: "datapaths (rebuild_graph_and_push tp sp st) = datapaths st" by (rule rebuild_frame)
  have r: "rules_for u d (emitted st (rebuild_graph_and_push tp sp st)) =
           (if u \<in> set (datapaths st)
            then [(u, FlowAdd 100 (MatchIPv4Dst 0x0800 (''10.0.0.'' @ str_nat d))
                        [ApplyActions [OFPActionOutput port]]),
                  (u, FlowAdd 100 (MatchArpTpa 0x0806 (''10.0.0.'' @ str_nat d))
                        [ApplyActions [OFPActionOutput port]])]
            else [])"
    unfolding cycle_rules_for [OF assms(1-5)] tree_step_def assms(6)
    by (simp add: send_rules_def dp ip_of_def)
  show ?thesis
    unfolding r by (auto simp: install_base_rules_def)
qed

theorem destination_rules_shape_witness:
  "number_of_nodes (G (build_graph demo_topo demo_state)) \<noteq> 0
   \<and> out_port_of line_sp (rebuild_graph_and_push demo_topo line_sp demo_state) 1 (ip_of 1) 3 = Inr 1
   \<and> 3 \<notin> set (datapaths demo_state)
   \<and> rules_for 3 1 (emitted demo_state (rebuild_graph_and_push demo_topo line_sp demo_state)) = []
   \<and> out_port_of line_sp (rebuild_graph_and_push demo_topo line_sp demo_state) 3 (ip_of 3) 1 = Inr 2
   \<and> 1 \<in> set (datapaths demo_state)
   \<and> rules_for 1 3 (emitted demo_state (rebuild_graph_and_push demo_topo line_sp demo_state)) =
        [(1, FlowAdd 100 (MatchIPv4Dst 0x0800 ''10.0.0.3'') [ApplyActions [OFPActionOutput 2]]),
         (1, FlowAdd 100 (MatchArpTpa 0x0806 ''10.0.0.3'') [ApplyActions [OFPActionOutput 2]])]"
proof -
  let ?st = "rebuild_graph_and_push demo_topo line_sp demo_state"
  have b: "(1::nat) \<le> 1" "(1::nat) \<le> NUM_HOSTS" "(1::nat) \<le> 3" "(3::nat) \<le> NUM_HOSTS"
    by (simp_all add: NUM_HOSTS_def)
  have o13: "out_port_of line_sp ?st 3 (ip_of 3) 1 = Inr 2"
    unfolding out_port_of_def demo_paths demo_adj by simp
  have s: "str_nat 3 = ''3''"
    by (simp add: str_nat.simps digit_char_def)
  have "rules_for 3 1 (emitted demo_state ?st) = []"
    using destination_rules_shape [OF demo_nonempty b(1,2) demo_in_graph(1,3) demo_out_port_31]
    by (simp add: demo_datapaths)
  moreover have "rules_for 1 3 (emitted demo_state ?st) =
        [(1, FlowAdd 100 (MatchIPv4Dst 0x0800 ''10.0.0.3'') [ApplyActions [OFPActionOutput 2]]),
         (1, FlowAdd 100 (MatchArpTpa 0x0806 ''10.0.0.3'') [ApplyActions [OFPActionOutput 2]])]"
    using destination_rules_shape [OF demo_nonempty b(3,4) demo_in_graph(3,1) o13]
    by (simp add: demo_datapaths s)
  ultimately show ?thesis
    using demo_nonempty demo_out_port_31 o13 by (simp add: demo_datapaths)
qed

text \<open>
  The claim C4 as it was stated fails: on the small network the rules of the pair
  \<open>(1, 1)\<close> have priority 100, which is not above the priority 500 of the discovery
  rule of the same switch; and the pair \<open>(3, 1)\<close> has an output port but no rule, since
  \<open>s3\<close> has no datapath.
\<close>

theorem destination_rules_counterexample:
  "(1, FlowAdd 100 (MatchIPv4Dst 0x0800 ''10.0.0.1'') [ApplyActions [OFPActionOutput 1]])
     \<in> set (rules_for 1 1 (emitted demo_state (rebuild_graph_and_push demo_topo line_sp demo_state)))
   \<and> (1, FlowAdd 500 (MatchEthType 0x88cc) [ApplyActions [OFPActionOutput OFPP_CONTROLLER]])
     \<in> set (emitted demo_state (rebuild_graph_and_push demo_topo line_sp demo_state))
   \<and> priority (FlowAdd 100 (MatchIPv4Dst 0x0800 ''10.0.0.1'') [ApplyActions [OFPActionOutput 1]])
       = Some 100
   \<and> priority (FlowAdd 500 (MatchEthType 0x88cc) [ApplyActions [OFPActionOutput OFPP_CONTROLLER]])
       = Some 500
   \<and> \<not> (500 :: nat) < 100
   \<and> out_port_of line_sp (rebuild_graph_and_push demo_topo line_sp demo_state) 1 (ip_of 1) 3 = Inr 1
   \<and> rules_for 3 1 (emitted demo_state (rebuild_graph_and_push demo_topo line_sp demo_state)) = []"
proof -
  let ?st = "rebuild_graph_and_push demo_topo line_sp demo_state"
  have b: "(1::nat) \<le> 1" "(1::nat) \<le> NUM_HOSTS"
    by (simp_all add: NUM_HOSTS_def)
  have s: "ip_of 1 = ''10.0.0.1''"
    by (simp add: ip_of_def str_nat.simps digit_char_def)
  have dp: "datapaths ?st = datapaths demo_state" by (rule rebuild_frame)
  have "rules_for 1 1 (emitted demo_state ?st) =
      [(1, FlowAdd 100 (MatchIPv4Dst 0x0800 ''10.0.0.1'') [ApplyActions [OFPActionOutput 1]]),
       (1, FlowAdd 100 (MatchArpTpa 0x0806 ''10.0.0.1'') [ApplyActions [OFPActionOutput 1]])]"
    unfolding cycle_rules_for [OF demo_nonempty b demo_in_graph(1,1)] tree_step_def out_port_of_def
      demo_host_port_1 s
    by (simp add: send_rules_def dp demo_datapaths)
  moreover have "rules_for 3 1 (emitted demo_state ?st) = []"
    unfolding cycle_rules_for [OF demo_nonempty b demo_in_graph(1,3)] tree_step_def demo_out_port_31
    by (simp add: send_rules_def dp demo_datapaths)
  moreover have "(1, FlowAdd 500 (MatchEthType 0x88cc) [ApplyActions [OFPActionOutput OFPP_CONTROLLER]])
     \<in> set (emitted demo_state ?st)"
    unfolding cycle_emitted [OF demo_nonempty]
    by (simp add: demo_datapaths install_base_rules_def)
  ultimately show ?thesis
    using demo_out_port_31 by simp
qed

lemma in_concat_map: "x \<in> set xs \<Longrightarrow> y \<in> set (f x) \<Longrightarrow> y \<in> set (concat (map f xs))"
  by auto

text \<open>
  C8. In a cycle that is not aborted, for a pair \<open>(u, d)\<close> of different graph nodes, \<open>d\<close>
  in 1..14, between which the library finds no path: no rule of the pair is sent, the
  warning is logged, every pair of the cycle still gets what its own round of the loop
  decides, and the cycle runs to its end. A path query between the two switches
  answers 404 with the no-path error and leaves the state as it is.
\<close>

theorem no_path_skips_pair:
  assumes "number_of_nodes (G (build_graph tp st)) \<noteq> 0"
    and "1 \<le> d" "d \<le> NUM_HOSTS"
    and "in_graph d (G (rebuild_graph_and_push tp sp st))"
    and "in_graph u (G (rebuild_graph_and_push tp sp st))"
    and "u \<noteq> d"
    and "sp (G (rebuild_graph_and_push tp sp st)) u d = NetworkXNoPath"
  shows "rules_for u d (emitted st (rebuild_graph_and_push tp sp st)) = []
       \<and> (WARNING, NoRoute u d (ip_of d)) \<in> set (logged st (rebuild_graph_and_push tp sp st))
       \<and> (\<forall>u' d'. 1 \<le> d' \<and> d' \<le> NUM_HOSTS
             \<and> in_graph d' (G (rebuild_graph_and_push tp sp st))
             \<and> in_graph u' (G (rebuild_graph_and_push tp sp st)) \<longrightarrow>
             rules_for u' d' (emitted st (rebuild_graph_and_push tp sp st)) =
               fst (tree_step sp (rebuild_graph_and_push tp sp st) d' (ip_of d') u'))
       \<and> last (logged st (rebuild_graph_and_push tp sp st)) = (INFO, FlowsInstalled)
       \<and> (\<forall>s t. s \<noteq> [] \<and> t \<noteq> [] \<and> parse_node s = Inr u \<and> parse_node t = Inr d \<longrightarrow>
             path sp (Some s) (Some t) (rebuild_graph_and_push tp sp st) =
               (\<lparr>status = 404, body = NoPathError\<rparr>, rebuild_graph_and_push tp sp st))"
proof -
  let ?st = "rebuild_graph_and_push tp sp st"
  have step: "tree_step sp ?st d (ip_of d) u = ([], [(WARNING, NoRoute u d (ip_of d))])"
    using assms(6,7) by (simp add: tree_step_def out_port_of_def)
  have "rules_for u d (emitted st ?st) = []"
    unfolding cycle_rules_for [OF assms(1-5)] by (simp add: step)
  moreover have "(WARNING, NoRoute u d (ip_of d)) \<in> set (logged st ?st)"
  proof -
    have dj: "d \<in> set [1..<NUM_HOSTS + 1]" using assms(2,3) by auto
    have un: "u \<in> set (g_node (G ?st))" using assms(5) by (simp add: in_graph_def)
    have inner: "(WARNING, NoRoute u d (ip_of d))
        \<in> set (concat (map (\<lambda>u'. snd (tree_step sp ?st d (ip_of d) u')) (g_node (G ?st))))"
      by (rule in_concat_map [OF un]) (simp add: step)
    have "(WARNING, NoRoute u d (ip_of d)) \<in> set (snd (dest_loop sp ?st [1..<NUM_HOSTS + 1]))"
      unfolding dest_loop_snd install_tree_to_destination_def tree_loop_snd
      using inner by (intro in_concat_map [OF dj]) (simp add: assms(4))
    then show ?thesis
      by (simp add: cycle_logged [OF assms(1)])
  qed
  moreover have "\<forall>u' d'. 1 \<le> d' \<and> d' \<le> NUM_HOSTS \<and> in_graph d' (G ?st) \<and> in_graph u' (G ?st) \<longrightarrow>
             rules_for u' d' (emitted st ?st) = fst (tree_step sp ?st d' (ip_of d') u')"
    using cycle_rules_for [OF assms(1)] by blast
  moreover have "last (logged st ?st) = (INFO, FlowsInstalled)"
    by (simp add: cycle_logged [OF assms(1)])
  moreover have "\<forall>s t. s \<noteq> [] \<and> t \<noteq> [] \<and> parse_node s = Inr u \<and> parse_node t = Inr d \<longrightarrow>
             path sp (Some s) (Some t) ?st = (\<lparr>status = 404, body = NoPathError\<rparr>, ?st)"
    using assms(4,5,7) by (simp add: path_def)
  ultimately show ?thesis by (intro conjI)
qed

lemma demo_out_port_13:
  "out_port_of line_sp (rebuild_graph_and_push demo_topo line_sp demo_state) 3 (ip_of 3) 1 = Inr 2"
  unfolding out_port_of_def demo_paths demo_adj by simp

lemma demo_ip: "ip_of 1 = ''10.0.0.1''" "ip_of 3 = ''10.0.0.3''" "ip_of 4 = ''10.0.0.4''"
  by (simp_all add: ip_of_def str_nat.simps digit_char_def)

lemma parse_node_examples:
  "parse_node ''s1'' = Inr 1"
  "parse_node ''10.0.0.4'' = Inr 4"
  "parse_node ''abc'' = Inl (ValueError BadNodeFormat)"
  by (simp_all add: parse_node_def strip_def py_isspace_def isdigit_def is_digit_def is_decimal_def
      py_int_def Let_def int_max_str_digits_def digit_val_def)

theorem no_path_skips_pair_witness:
  "number_of_nodes (G (build_graph demo_topo demo_state)) \<noteq> 0
   \<and> in_graph 4 (G (rebuild_graph_and_push demo_topo line_sp demo_state))
   \<and> in_graph 1 (G (rebuild_graph_and_push demo_topo line_sp demo_state))
   \<and> line_sp (G (rebuild_graph_and_push demo_topo line_sp demo_state)) 1 4 = NetworkXNoPath
   \<and> rules_for 1 4 (emitted demo_state (rebuild_graph_and_push demo_topo line_sp demo_state)) = []
   \<and> (WARNING, NoRoute 1 4 ''10.0.0.4'')
        \<in> set (logged demo_state (rebuild_graph_and_push demo_topo line_sp demo_state))
   \<and> rules_for 1 3 (emitted demo_state (rebuild_graph_and_push demo_topo line_sp demo_state)) =
        [(1, FlowAdd 100 (MatchIPv4Dst 0x0800 ''10.0.0.3'') [ApplyActions [OFPActionOutput 2]]),
         (1, FlowAdd 100 (MatchArpTpa 0x0806 ''10.0.0.3'') [ApplyActions [OFPActionOutput 2]])]
   \<and> last (logged demo_state (rebuild_graph_and_push demo_topo line_sp demo_state))
        = (INFO, FlowsInstalled)
   \<and> fst (path line_sp (Some ''s1'') (Some ''10.0.0.4'')
            (rebuild_graph_and_push demo_topo line_sp demo_state))
        = \<lparr>status = 404, body = NoPathError\<rparr>"
proof -
  let ?st = "rebuild_graph_and_push demo_topo line_sp demo_state"
  have b: "(1::nat) \<le> 4" "(4::nat) \<le> NUM_HOSTS" "(1::nat) \<le> 3" "(3::nat) \<le> NUM_HOSTS"
    by (simp_all add: NUM_HOSTS_def)
  have ne: "(1::nat) \<noteq> 4" by simp
  note w = no_path_skips_pair [OF demo_nonempty b(1,2) demo_in_graph(4,1) ne demo_paths(3)]
  have dp: "datapaths ?st = datapaths demo_state" by (rule rebuild_frame)
  have t: "fst (tree_step line_sp ?st 3 (ip_of 3) 1) =
        [(1, FlowAdd 100 (MatchIPv4Dst 0x0800 ''10.0.0.3'') [ApplyActions [OFPActionOutput 2]]),
         (1, FlowAdd 100 (MatchArpTpa 0x0806 ''10.0.0.3'') [ApplyActions [OFPActionOutput 2]])]"
    unfolding tree_step_def demo_out_port_13
    by (simp add: send_rules_def dp demo_datapaths demo_ip)
  from w have "rules_for 1 3 (emitted demo_state ?st) = fst (tree_step line_sp ?st 3 (ip_of 3) 1)"
    using b(3,4) demo_in_graph(3,1) by blast
  then have r13: "rules_for 1 3 (emitted demo_state ?st) =
        [(1, FlowAdd 100 (MatchIPv4Dst 0x0800 ''10.0.0.3'') [ApplyActions [OFPActionOutput 2]]),
         (1, FlowAdd 100 (MatchArpTpa 0x0806 ''10.0.0.3'') [ApplyActions [OFPActionOutput 2]])]"
    by (simp only: t)
  from w have "path line_sp (Some ''s1'') (Some ''10.0.0.4'') ?st =
      (\<lparr>status = 404, body = NoPathError\<rparr>, ?st)"
    using parse_node_examples(1,2) by blast
  then have p: "fst (path line_sp (Some ''s1'') (Some ''10.0.0.4'') ?st) =
      \<lparr>status = 404, body = NoPathError\<rparr>"
    by simp
  from w have "rules_for 1 4 (emitted demo_state ?st) = []"
    and "(WARNING, NoRoute 1 4 (ip_of 4)) \<in> set (logged demo_state ?st)"
    and "last (logged demo_state ?st) = (INFO, FlowsInstalled)"
    by blast+
  then show ?thesis
    using demo_nonempty demo_in_graph(4,1) demo_paths(3) r13 p
    unfolding demo_ip by (intro conjI)
qed

subsection \<open>Reinstalling twice\<close>

lemma rebuild_emitted_cong:
  assumes "mode st = mode st2" "sw_all_ports st = sw_all_ports st2" "datapaths st = datapaths st2"
  shows "emitted st (rebuild_graph_and_push tp sp st) = emitted st2 (rebuild_graph_and_push tp sp st2)"
proof (cases "number_of_nodes (G (build_graph tp st)) = 0")
  case True
  then have "number_of_nodes (G (build_graph tp st2)) = 0"
    by (rule no_nodes_any_state)
  with True show ?thesis
    by (simp add: emitted_def rebuild_empty)
next
  case False
  then have f2: "number_of_nodes (G (build_graph tp st2)) \<noteq> 0"
    by (simp add: build_graph_no_nodes_iff)
  let ?a = "rebuild_graph_and_push tp sp st" and ?b = "rebuild_graph_and_push tp sp st2"
  have g: "G (build_graph tp st) = G (build_graph tp st2)"
    and a: "adj (build_graph tp st) = adj (build_graph tp st2)"
    and l: "sw_link_ports (build_graph tp st) = sw_link_ports (build_graph tp st2)"
    by (simp_all add: build_graph_G build_graph_adj build_graph_link_ports assms(1))
  have h: "host_port (deduce_host_ports (build_graph tp st)) =
           host_port (deduce_host_ports (build_graph tp st2))"
    unfolding deduce_host_port g l build_graph_frame assms(2) ..
  have "dest_loop sp ?a [1..<NUM_HOSTS + 1] = dest_loop sp ?b [1..<NUM_HOSTS + 1]"
    by (rule dest_loop_cong) (simp_all add: cycle_fields [OF False] cycle_fields [OF f2] g a h assms(3))
  then show ?thesis
    by (simp add: cycle_emitted [OF False] cycle_emitted [OF f2] assms(3))
qed

text \<open>
  C9. A second reinstall from the same topology snapshot sends what the first one
  sent, message for message and in the same order: the port sets of the switches, the
  mode and the datapaths are what they were, and everything else is built again. In
  particular the two multisets of messages are equal.
\<close>

theorem reinstall_idempotent:
  "emitted (reinstall tp sp st) (reinstall tp sp (reinstall tp sp st)) = emitted st (reinstall tp sp st)
   \<and> mset (emitted (reinstall tp sp st) (reinstall tp sp (reinstall tp sp st)))
       = mset (emitted st (reinstall tp sp st))
   \<and> mode (reinstall tp sp st) = mode st
   \<and> sw_all_ports (reinstall tp sp st) = sw_all_ports st
   \<and> datapaths (reinstall tp sp st) = datapaths st"
proof -
  have "emitted (reinstall tp sp st) (reinstall tp sp (reinstall tp sp st))
      = emitted st (reinstall tp sp st)"
    unfolding reinstall_def by (rule rebuild_emitted_cong) (simp_all add: rebuild_frame)
  then show ?thesis
    by (simp add: reinstall_def rebuild_frame)
qed

theorem reinstall_idempotent_witness:
  "emitted (reinstall demo_topo line_sp demo_state)
           (reinstall demo_topo line_sp (reinstall demo_topo line_sp demo_state))
     = emitted demo_state (reinstall demo_topo line_sp demo_state)
   \<and> rules_for 1 3 (emitted (reinstall demo_topo line_sp demo_state)
           (reinstall demo_topo line_sp (reinstall demo_topo line_sp demo_state))) =
        [(1, FlowAdd 100 (MatchIPv4Dst 0x0800 ''10.0.0.3'') [ApplyActions [OFPActionOutput 2]]),
         (1, FlowAdd 100 (MatchArpTpa 0x0806 ''10.0.0.3'') [ApplyActions [OFPActionOutput 2]])]"
proof -
  let ?st = "rebuild_graph_and_push demo_topo line_sp demo_state"
  have b: "(1::nat) \<le> 3" "(3::nat) \<le> NUM_HOSTS"
    by (simp_all add: NUM_HOSTS_def)
  have dp: "datapaths ?st = datapaths demo_state" by (rule rebuild_frame)
  have "rules_for 1 3 (emitted demo_state ?st) =
        [(1, FlowAdd 100 (MatchIPv4Dst 0x0800 ''10.0.0.3'') [ApplyActions [OFPActionOutput 2]]),
         (1, FlowAdd 100 (MatchArpTpa 0x0806 ''10.0.0.3'') [ApplyActions [OFPActionOutput 2]])]"
    unfolding cycle_rules_for [OF demo_nonempty b demo_in_graph(3,1)] tree_step_def
      demo_out_port_13
    by (simp add: send_rules_def dp demo_datapaths demo_ip)
  then show ?thesis
    using reinstall_idempotent [of demo_topo line_sp demo_state] by (simp add: reinstall_def)
qed

subsection \<open>Rounding to a double\<close>

lemma round_half_even_eqI:
  assumes "\<bar>y - of_int m\<bar> < 1 / 2"
  shows "round_half_even y = m"
proof -
  have lo: "of_int m - 1 / 2 < y" and hi: "y < of_int m + 1 / 2"
    using assms unfolding abs_less_iff by linarith+
  have "\<lfloor>y\<rfloor> = m \<or> \<lfloor>y\<rfloor> = m - 1"
  proof (cases "of_int m \<le> y")
    case True
    with hi have "\<lfloor>y\<rfloor> = m" by (simp add: floor_eq_iff)
    then show ?thesis ..
  next
    case False
    with lo have "\<lfloor>y\<rfloor> = m - 1" by (simp add: floor_eq_iff)
    then show ?thesis ..
  qed
  then show ?thesis
  proof
    assume f: "\<lfloor>y\<rfloor> = m"
    then have "y - of_int m < 1 / 2" using hi by simp
    then show ?thesis by (simp add: round_half_even_def Let_def f)
  next
    assume f: "\<lfloor>y\<rfloor> = m - 1"
    then have "1 / 2 < y - of_int (m - 1)" using lo by simp
    then show ?thesis by (simp add: round_half_even_def Let_def f)
  qed
qed

lemma round_half_even_of_int [simp]: "round_half_even (of_int m) = m"
  by (rule round_half_even_eqI) simp

lemma ilog2_bounds:
  assumes "0 < x"
  shows "2 powi ilog2 x \<le> x" and "x < 2 powi (ilog2 x + 1)"
proof -
  have "2 powi ilog2 x \<le> x \<and> x < 2 powi (ilog2 x + 1)"
  proof (cases "1 \<le> x")
    case True
    define n where "n = \<lfloor>x\<rfloor>"
    define b where "b = bitlen n"
    have n: "0 < n" using True unfolding n_def by linarith
    from bitlen_bounds [OF n] have lo: "2 ^ nat (b - 1) \<le> n" and hi: "n < 2 ^ nat b"
      unfolding b_def by simp_all
    have b1: "1 \<le> b" using n unfolding b_def by (simp add: bitlen_alt_def)
    have k: "ilog2 x = b - 1" using True by (simp add: ilog2_def n_def b_def)
    have "(2::rat) powi (b - 1) = of_int (2 ^ nat (b - 1))"
      using b1 by (simp add: power_int_def)
    also have "\<dots> \<le> of_int n" using lo by (simp only: of_int_le_iff)
    also have "\<dots> \<le> x" unfolding n_def by simp
    finally have A: "2 powi (b - 1) \<le> x" .
    have "x < of_int (n + 1)" unfolding n_def by linarith
    also have "\<dots> \<le> of_int (2 ^ nat b)" using hi by (simp only: of_int_le_iff; simp)
    also have "\<dots> = (2::rat) powi b" using b1 by (simp add: power_int_def)
    finally have B: "x < 2 powi (b - 1 + 1)" by simp
    from A B show ?thesis unfolding k by simp
  next
    case False
    define c where "c = \<lceil>1 / x\<rceil>"
    define d where "d = c - 1"
    define j where "j = bitlen d"
    have x1: "x < 1" using False by simp
    then have "1 < 1 / x" using assms by (simp add: field_simps)
    then have c2: "2 \<le> c" unfolding c_def by linarith
    then have d: "0 < d" unfolding d_def by simp
    from bitlen_bounds [OF d] have lo: "2 ^ nat (j - 1) \<le> d" and hi: "d < 2 ^ nat j"
      unfolding j_def by simp_all
    have j1: "1 \<le> j" using d unfolding j_def by (simp add: bitlen_alt_def)
    have k: "ilog2 x = - j" using False by (simp add: ilog2_def c_def d_def j_def)
    have "1 / x \<le> of_int c" unfolding c_def by simp
    also have "\<dots> \<le> of_int (2 ^ nat j)" using hi unfolding d_def by (simp only: of_int_le_iff; simp)
    finally have "1 / x \<le> 2 ^ nat j" by simp
    then have "1 \<le> x * 2 ^ nat j" using assms by (simp add: field_simps)
    then have "1 / 2 ^ nat j \<le> x" by (simp add: field_simps)
    moreover have "(2::rat) powi (- j) = 1 / 2 ^ nat j"
      using j1 by (simp add: power_int_def field_simps)
    ultimately have A: "2 powi (- j) \<le> x" by simp
    have "of_int (2 ^ nat (j - 1)) \<le> (of_int d :: rat)" using lo by (simp only: of_int_le_iff)
    also have "(of_int d :: rat) < 1 / x" unfolding d_def c_def by simp linarith
    finally have "2 ^ nat (j - 1) < 1 / x" by simp
    then have "x * 2 ^ nat (j - 1) < 1" using assms by (simp add: field_simps)
    then have "x < 1 / 2 ^ nat (j - 1)" by (simp add: field_simps)
    moreover have "(2::rat) powi (- j + 1) = 1 / 2 ^ nat (j - 1)"
    proof (cases "j = 1")
      case True then show ?thesis by simp
    next
      case False
      with j1 have "- j + 1 < 0" by simp
      then show ?thesis
        using j1 by (simp add: power_int_def field_simps nat_diff_distrib)
    qed
    ultimately have B: "x < 2 powi (- j + 1)" by simp
    from A B show ?thesis unfolding k by simp
  qed
  then show "2 powi ilog2 x \<le> x" and "x < 2 powi (ilog2 x + 1)" by simp_all
qed

lemma powi2_less_imp: "(2::rat) powi a < 2 powi b \<Longrightarrow> a < b"
proof (rule ccontr)
  assume l: "(2::rat) powi a < 2 powi b" and "\<not> a < b"
  then have "b \<le> a" by simp
  then have "(2::rat) powi b \<le> 2 powi a" by (rule power_int_increasing) simp
  with l show False by simp
qed

lemma ilog2_unique:
  assumes "0 < x" "2 powi k \<le> x" "x < 2 powi (k + 1)"
  shows "ilog2 x = k"
proof -
  have "(2::rat) powi ilog2 x < 2 powi (k + 1)"
    using ilog2_bounds(1) [OF assms(1)] assms(3) by simp
  then have "ilog2 x < k + 1" by (rule powi2_less_imp)
  moreover have "(2::rat) powi k < 2 powi (ilog2 x + 1)"
    using ilog2_bounds(2) [OF assms(1)] assms(2) by simp
  then have "k < ilog2 x + 1" by (rule powi2_less_imp)
  ultimately show ?thesis by simp
qed

lemma to_double_eqI:
  assumes "0 < x" and "- 1074 \<le> e"
    and "2 ^ 52 \<le> x / 2 powi e" and "x / 2 powi e < 2 ^ 53"
    and "\<bar>x / 2 powi e - of_int m\<bar> < 1 / 2"
  shows "to_double x = of_int m * 2 powi e"
proof -
  have p: "(0::rat) < 2 powi e" by simp
  have "2 powi 52 * 2 powi e \<le> x"
    using assms(3) p by (simp add: field_simps)
  then have a: "2 powi (e + 52) \<le> x" by (simp add: power_int_add ac_simps)
  have "x < 2 powi 53 * 2 powi e"
    using assms(4) p by (simp add: field_simps)
  then have b: "x < 2 powi (e + 52 + 1)" by (simp add: power_int_add ac_simps)
  have k: "ilog2 x = e + 52" using assms(1) a b by (rule ilog2_unique)
  have r: "round_half_even (x / 2 powi e) = m" using assms(5) by (rule round_half_even_eqI)
  show ?thesis
    using assms(1,2) by (simp add: to_double_def k r Let_def max_def)
qed

lemma to_double_zero [simp]: "to_double 0 = 0"
  by (simp add: to_double_def)

lemma to_double_of_int:
  assumes "0 \<le> n" "n < 2 ^ 53"
  shows "to_double (of_int n) = of_int n"
proof (cases "n = 0")
  case True
  then show ?thesis by simp
next
  case False
  define x :: rat where "x = of_int n"
  define k where "k = ilog2 x"
  have n1: "1 \<le> n" using assms(1) False by simp
  then have x1: "1 \<le> x" unfolding x_def by simp
  then have x0: "0 < x" by simp
  have xu: "x < 2 powi 53"
    using assms(2) unfolding x_def by (metis of_int_less_iff of_int_numeral of_int_power power_int_numeral)
  note kb = ilog2_bounds [OF x0, folded k_def]
  have "(2::rat) powi 0 < 2 powi (k + 1)" using x1 kb(2) by simp
  then have k0: "0 \<le> k" using powi2_less_imp by fastforce
  have "(2::rat) powi k < 2 powi 53" using kb(1) xu by simp
  then have k52: "k \<le> 52" using powi2_less_imp by fastforce
  define s where "s = nat (52 - k)"
  have e: "(2::rat) powi (k - 52) = 1 / 2 ^ s"
    using k52 unfolding s_def by (cases "k = 52") (simp_all add: power_int_def field_simps)
  have q: "x / 2 powi (k - 52) = x * 2 ^ s" by (simp add: e)
  have kk: "(2::rat) powi k * 2 ^ s = 2 ^ 52"
  proof -
    have "(2::rat) powi k * 2 ^ s = 2 ^ nat k * 2 ^ s" using k0 by (simp add: power_int_def)
    also have "\<dots> = 2 ^ (nat k + s)" by (simp add: power_add)
    also have "nat k + s = 52" using k0 k52 unfolding s_def by simp
    finally show ?thesis .
  qed
  have k1: "(2::rat) powi (k + 1) * 2 ^ s = 2 ^ 53"
  proof -
    have "(2::rat) powi (k + 1) * 2 ^ s = 2 ^ nat (k + 1) * 2 ^ s" using k0 by (simp add: power_int_def)
    also have "\<dots> = 2 ^ (nat (k + 1) + s)" by (simp add: power_add)
    also have "nat (k + 1) + s = 53" using k0 k52 unfolding s_def by simp
    finally show ?thesis .
  qed
  have lo: "2 ^ 52 \<le> x / 2 powi (k - 52)"
    unfolding q kk [symmetric] using kb(1) by (simp add: mult_right_mono)
  have hi: "x / 2 powi (k - 52) < 2 ^ 53"
    unfolding q k1 [symmetric] using kb(2) by (simp add: mult_strict_right_mono)
  have "x / 2 powi (k - 52) = of_int (n * 2 ^ s)"
    by (simp only: q) (simp add: x_def)
  then have m: "\<bar>x / 2 powi (k - 52) - of_int (n * 2 ^ s)\<bar> < 1 / 2"
    by simp
  have "to_double x = of_int (n * 2 ^ s) * 2 powi (k - 52)"
    using x0 _ lo hi m by (rule to_double_eqI) (use k0 in simp)
  also have "\<dots> = x" unfolding e x_def by simp
  finally show ?thesis unfolding x_def .
qed

lemma to_double_numeral [simp]:
  "numeral w < (2 :: int) ^ 53 \<Longrightarrow> to_double (numeral w) = numeral w"
  using to_double_of_int [of "numeral w"] by simp

lemma to_double_one [simp]: "to_double 1 = 1"
  using to_double_of_int [of 1] by simp

lemma py_round2_of_int:
  assumes "0 \<le> n" "n < 2 ^ 53"
  shows "py_round2 (of_int n) = of_int n"
proof -
  have "round_half_even (of_int n * 100) = n * 100"
    by (rule round_half_even_eqI) simp
  then show ?thesis
    using to_double_of_int [OF assms] by (simp add: py_round2_def)
qed

lemma py_round2_small:
  assumes "0 \<le> x" "x < 1 / 200"
  shows "py_round2 x = 0"
proof -
  have "round_half_even (x * 100) = 0"
    using assms by (intro round_half_even_eqI) (simp add: abs_if)
  then show ?thesis by (simp add: py_round2_def)
qed

lemma py_round2_values:
  "py_round2 0 = 0" "py_round2 2 = 2" "py_round2 4 = 4" "py_round2 10 = 10"
  using py_round2_of_int [of 0] py_round2_of_int [of 2] py_round2_of_int [of 4]
    py_round2_of_int [of 10]
  by simp_all

text \<open>The float nearest to 1/10, and 100 times it; the same for 1/25; and 1/625000.\<close>

lemma double_tenth: "to_double (1 / 10) = 3602879701896397 / 36028797018963968"
  using to_double_eqI [of "1 / 10" "- 56" 7205759403792794]
  by (simp add: power_int_minus)

lemma double_tenth_times_100: "to_double (3602879701896397 / 36028797018963968 * 100) = 10"
  using to_double_eqI [of "3602879701896397 / 36028797018963968 * 100" "- 49" 5629499534213120]
  by (simp add: power_int_minus)

lemma double_25th: "to_double (1 / 25) = 5764607523034235 / 144115188075855872"
  using to_double_eqI [of "1 / 25" "- 57" 5764607523034235]
  by (simp add: power_int_minus)

lemma double_25th_times_100: "to_double (5764607523034235 / 144115188075855872 * 100) = 4"
  using to_double_eqI [of "5764607523034235 / 144115188075855872 * 100" "- 50" 4503599627370496]
  by (simp add: power_int_minus)

lemma double_625000th: "to_double (1 / 625000) = 944473296573929 / 590295810358705651712"
  using to_double_eqI [of "1 / 625000" "- 72" 7555786372591432]
  by (simp add: power_int_minus)

lemma loss_of_10_in_100: "fmul (int_truediv 10 100) 100 = 10"
proof -
  have "int_truediv 10 100 = to_double (1 / 10)"
    by (simp add: int_truediv_def)
  then show ?thesis
    unfolding fmul_def double_tenth by (simp only: double_tenth_times_100)
qed

lemma loss_of_5_in_50: "fmul (int_truediv 5 50) 100 = 10"
proof -
  have "int_truediv 5 50 = to_double (1 / 10)"
    by (simp add: int_truediv_def)
  then show ?thesis
    unfolding fmul_def double_tenth by (simp only: double_tenth_times_100)
qed

lemma four_percent: "fmul (fdiv 2 (float_of_int (int 50))) 100 = 4"
proof -
  have "fdiv 2 (float_of_int (int 50)) = to_double (1 / 25)"
    by (simp add: fdiv_def float_of_int_def)
  then show ?thesis
    unfolding fmul_def double_25th by (simp only: double_25th_times_100)
qed

text \<open>
  The rounding is that of the floats, not of the exact quotient. 1671875 bytes in 5
  seconds are exactly 2.675 Mbps; the float nearest to it lies below, and the value
  reported is the float 2.67. One packet lost in 20000 is 0.005 percent; the float
  computed lies above, and the value reported is the float 0.01.
\<close>

lemma double_2675: "to_double (13375000 / 5000000) = 3011782250804019 / 1125899906842624"
  using to_double_eqI [of "13375000 / 5000000" "- 51" 6023564501608038]
  by (simp add: power_int_minus)

lemma throughput_rounds_down:
  "py_round2 (fdiv (float_of_int (8 * 1671875)) (fmul 5 1000000)) = to_double (267 / 100)"
proof -
  have "fdiv (float_of_int (8 * 1671875)) (fmul 5 1000000) = to_double (13375000 / 5000000)"
    by (simp add: fdiv_def fmul_def float_of_int_def)
  then have a: "fdiv (float_of_int (8 * 1671875)) (fmul 5 1000000) =
      3011782250804019 / 1125899906842624"
    by (simp only: double_2675)
  have b: "round_half_even (3011782250804019 / 1125899906842624 * 100) = 267"
    by (rule round_half_even_eqI) simp
  show ?thesis
    unfolding py_round2_def a b by simp
qed

lemma double_20000th: "to_double (1 / 20000) = 7378697629483821 / 147573952589676412928"
  using to_double_eqI [of "1 / 20000" "- 67" 7378697629483821]
  by (simp add: power_int_minus)

lemma double_20000th_times_100:
  "to_double (7378697629483821 / 147573952589676412928 * 100) =
     5764607523034235 / 1152921504606846976"
  using to_double_eqI [of "7378697629483821 / 147573952589676412928 * 100" "- 60" 5764607523034235]
  by (simp add: power_int_minus)

lemma loss_rounds_up:
  "py_round2 (fmul (int_truediv 1 20000) 100) = to_double (1 / 100)"
proof -
  have "int_truediv 1 20000 = to_double (1 / 20000)"
    by (simp add: int_truediv_def)
  then have a: "fmul (int_truediv 1 20000) 100 = 5764607523034235 / 1152921504606846976"
    unfolding fmul_def double_20000th by (simp only: double_20000th_times_100)
  have b: "round_half_even (5764607523034235 / 1152921504606846976 * 100) = 1"
    by (rule round_half_even_eqI) simp
  show ?thesis
    unfolding py_round2_def a b by simp
qed

subsection \<open>Link statistics\<close>

lemma replies_first_poll:
  "map_sum id (\<lambda>st. (adj st, lookup_sample (port_stats st) 1 2, lookup_sample (port_stats st) 2 3,
                       lookup_sample (port_stats_prev st) 1 2, lookup_sample (port_stats_prev st) 2 3))
     (replies first_poll link_state) =
   Inr ([((1, 2), 2), ((2, 1), 3)],
        Some \<lparr>rx_packets = 80, tx_packets = 100, rx_bytes = 8000, tx_bytes = 1250000,
              rx_dropped = 0, tx_dropped = 0, rx_errors = 0, tx_errors = 0, timestamp = 1700000000\<rparr>,
        Some \<lparr>rx_packets = 90, tx_packets = 70, rx_bytes = 9000, tx_bytes = 7000,
              rx_dropped = 0, tx_dropped = 0, rx_errors = 0, tx_errors = 0, timestamp = 1700000000\<rparr>,
        None, None)"
  by (simp add: first_poll_def link_state_def init_state_def counters_def port_stats_reply_def
      lookup_sample_def Let_def)


lemma replies_second_poll:
  "map_sum id (\<lambda>st. (adj st, lookup_sample (port_stats st) 1 2, lookup_sample (port_stats st) 2 3,
                       lookup_sample (port_stats_prev st) 1 2, lookup_sample (port_stats_prev st) 2 3))
     (replies (first_poll @ second_poll) link_state) =
   Inr ([((1, 2), 2), ((2, 1), 3)],
        Some \<lparr>rx_packets = 120, tx_packets = 150, rx_bytes = 12000, tx_bytes = 2500000,
              rx_dropped = 0, tx_dropped = 0, rx_errors = 0, tx_errors = 0, timestamp = 1700000005\<rparr>,
        Some \<lparr>rx_packets = 135, tx_packets = 110, rx_bytes = 13000, tx_bytes = 11000,
              rx_dropped = 0, tx_dropped = 0, rx_errors = 0, tx_errors = 0, timestamp = 1700000005\<rparr>,
        Some \<lparr>rx_packets = 80, tx_packets = 100, rx_bytes = 8000, tx_bytes = 1250000,
              rx_dropped = 0, tx_dropped = 0, rx_errors = 0, tx_errors = 0, timestamp = 1700000000\<rparr>,
        Some \<lparr>rx_packets = 90, tx_packets = 70, rx_bytes = 9000, tx_bytes = 7000,
              rx_dropped = 0, tx_dropped = 0, rx_errors = 0, tx_errors = 0, timestamp = 1700000000\<rparr>)"
  by (simp add: first_poll_def second_poll_def link_state_def init_state_def counters_def
      port_stats_reply_def lookup_sample_def Let_def)

lemma replies_quiet_poll:
  "map_sum id (\<lambda>st. (adj st, lookup_sample (port_stats st) 1 2, lookup_sample (port_stats st) 2 3,
                       lookup_sample (port_stats_prev st) 1 2, lookup_sample (port_stats_prev st) 2 3))
     (replies (first_poll @ quiet_poll) link_state) =
   Inr ([((1, 2), 2), ((2, 1), 3)],
        Some \<lparr>rx_packets = 80, tx_packets = 101, rx_bytes = 8000, tx_bytes = 1250001,
              rx_dropped = 0, tx_dropped = 0, rx_errors = 0, tx_errors = 0, timestamp = 1700000005\<rparr>,
        Some \<lparr>rx_packets = 91, tx_packets = 70, rx_bytes = 9001, tx_bytes = 7000,
              rx_dropped = 0, tx_dropped = 0, rx_errors = 0, tx_errors = 0, timestamp = 1700000005\<rparr>,
        Some \<lparr>rx_packets = 80, tx_packets = 100, rx_bytes = 8000, tx_bytes = 1250000,
              rx_dropped = 0, tx_dropped = 0, rx_errors = 0, tx_errors = 0, timestamp = 1700000000\<rparr>,
        Some \<lparr>rx_packets = 90, tx_packets = 70, rx_bytes = 9000, tx_bytes = 7000,
              rx_dropped = 0, tx_dropped = 0, rx_errors = 0, tx_errors = 0, timestamp = 1700000000\<rparr>)"
  by (simp add: first_poll_def quiet_poll_def link_state_def init_state_def counters_def
      port_stats_reply_def lookup_sample_def Let_def)

lemma map_sum_InrE:
  assumes "map_sum f g x = Inr y"
  obtains z where "x = Inr z" "g z = y"
  using assms by (cases x) auto

lemma bw_of_1_2: "bw_of 1 2 = 50"
  by (simp add: bw_of_def link_bw_def undirected_key_def)

lemma map_filter_member:
  "x \<in> set xs \<Longrightarrow> f x = Some y \<Longrightarrow> y \<in> set (List.map_filter f xs)"
  by (force simp: List.map_filter_def)

lemma get_link_stats_single:
  "adj st = [((1, 2), p), ((2, 1), q)] \<Longrightarrow> link_row st (1, 2) = Some row \<Longrightarrow>
     get_link_stats st = [row]"
  by (simp add: get_link_stats_def List.map_filter_simps link_row_def)

text \<open>
  C2, as amended. For a link \<open>(u, v)\<close>, \<open>u \<le> v\<close>, that the port map records in both
  directions with ports other than 0, whose two end points each have a current and a
  previous sample, with \<open>\<Delta>t > 0\<close> at \<open>u\<close>: the row of the link is reported, and its
  throughput, utilization and loss rate are the formulas of the specification,
  computed in floating-point arithmetic and rounded to two decimal places by
  \<^verbatim>\<open>round(x, 2)\<close>; the utilization is 0 for a bandwidth of 0. With 1250000 bytes in 5
  seconds the throughput is 2, and 4 percent of a bandwidth of 50.
\<close>

theorem link_stats_formulas:
  fixes st :: controller and cu pu cv pv :: sample
  defines "dt \<equiv> fsub (timestamp cu) (timestamp pu)"
    and "dtx \<equiv> tx_packets cu - tx_packets pu"
    and "drx \<equiv> rx_packets cv - rx_packets pv"
  defines "thr \<equiv> fdiv (float_of_int (8 * (tx_bytes cu - tx_bytes pu))) (fmul dt 1000000)"
    and "loss \<equiv> (if 0 < dtx then fmul (int_truediv (max 0 (dtx - drx)) dtx) 100 else 0)"
  assumes "map_of (adj st) (u, v) = Some port_u" "map_of (adj st) (v, u) = Some port_v"
    and "u \<le> v" "port_u \<noteq> 0" "port_v \<noteq> 0"
    and "lookup_sample (port_stats st) u port_u = Some cu"
    and "lookup_sample (port_stats st) v port_v = Some cv"
    and "lookup_sample (port_stats_prev st) u port_u = Some pu"
    and "lookup_sample (port_stats_prev st) v port_v = Some pv"
    and "0 < dt"
  shows "link_row st (u, v) =
           Some \<lparr>ls_src = u, ls_dst = v, ls_src_port = port_u, ls_dst_port = port_v,
                 bw_mbps = bw_of u v,
                 throughput_mbps = py_round2 thr,
                 utilization =
                   (if bw_of u v = 0 then 0
                    else py_round2 (fmul (fdiv thr (float_of_int (int (bw_of u v)))) 100)),
                 packet_loss_rate = py_round2 loss,
                 rx_packets_u = rx_packets cu, tx_packets_u = tx_packets cu,
                 rx_dropped_u = rx_dropped cu, tx_dropped_u = tx_dropped cu\<rparr>
       \<and> link_row st (u, v) \<in> Some ` set (get_link_stats st)
       \<and> (tx_bytes cu - tx_bytes pu = 1250000 \<and> dt = 5 \<longrightarrow>
             py_round2 thr = 2
           \<and> (bw_of u v = 50 \<longrightarrow>
                 py_round2 (fmul (fdiv thr (float_of_int (int (bw_of u v)))) 100) = 4))"
proof -
  have row: "link_row st (u, v) =
           Some \<lparr>ls_src = u, ls_dst = v, ls_src_port = port_u, ls_dst_port = port_v,
                 bw_mbps = bw_of u v,
                 throughput_mbps = py_round2 thr,
                 utilization =
                   (if bw_of u v = 0 then 0
                    else py_round2 (fmul (fdiv thr (float_of_int (int (bw_of u v)))) 100)),
                 packet_loss_rate = py_round2 loss,
                 rx_packets_u = rx_packets cu, tx_packets_u = tx_packets cu,
                 rx_dropped_u = rx_dropped cu, tx_dropped_u = tx_dropped cu\<rparr>"
    using assms(6-15) unfolding thr_def loss_def dtx_def drx_def dt_def
    by (simp add: link_row_def Let_def fld_def mult.commute)
  have "(u, v) \<in> set (map fst (adj st))"
    using assms(6) by (force dest: map_of_SomeD)
  then have "the (link_row st (u, v)) \<in> set (List.map_filter (link_row st) (map fst (adj st)))"
    by (rule map_filter_member) (simp add: row)
  then have mem: "link_row st (u, v) \<in> Some ` set (get_link_stats st)"
    unfolding get_link_stats_def by (simp add: row)
  have ex: "tx_bytes cu - tx_bytes pu = 1250000 \<and> dt = 5 \<longrightarrow>
             py_round2 thr = 2
           \<and> (bw_of u v = 50 \<longrightarrow>
                 py_round2 (fmul (fdiv thr (float_of_int (int (bw_of u v)))) 100) = 4)"
  proof
    assume h: "tx_bytes cu - tx_bytes pu = 1250000 \<and> dt = 5"
    then have t: "thr = 2"
      unfolding thr_def by (simp add: fdiv_def fmul_def float_of_int_def)
    show "py_round2 thr = 2
           \<and> (bw_of u v = 50 \<longrightarrow>
                 py_round2 (fmul (fdiv thr (float_of_int (int (bw_of u v)))) 100) = 4)"
      unfolding t by (auto simp only: four_percent py_round2_values)
  qed
  from row mem ex show ?thesis
    by (intro conjI)
qed

theorem link_stats_formulas_witness:
  "map_sum id (\<lambda>st. (adj st, lookup_sample (port_stats st) 1 2, lookup_sample (port_stats st) 2 3,
                       lookup_sample (port_stats_prev st) 1 2, lookup_sample (port_stats_prev st) 2 3))
     (replies (first_poll @ second_poll) link_state) =
   Inr ([((1, 2), 2), ((2, 1), 3)],
        Some \<lparr>rx_packets = 120, tx_packets = 150, rx_bytes = 12000, tx_bytes = 2500000,
              rx_dropped = 0, tx_dropped = 0, rx_errors = 0, tx_errors = 0, timestamp = 1700000005\<rparr>,
        Some \<lparr>rx_packets = 135, tx_packets = 110, rx_bytes = 13000, tx_bytes = 11000,
              rx_dropped = 0, tx_dropped = 0, rx_errors = 0, tx_errors = 0, timestamp = 1700000005\<rparr>,
        Some \<lparr>rx_packets = 80, tx_packets = 100, rx_bytes = 8000, tx_bytes = 1250000,
              rx_dropped = 0, tx_dropped = 0, rx_errors = 0, tx_errors = 0, timestamp = 1700000000\<rparr>,
        Some \<lparr>rx_packets = 90, tx_packets = 70, rx_bytes = 9000, tx_bytes = 7000,
              rx_dropped = 0, tx_dropped = 0, rx_errors = 0, tx_errors = 0, timestamp = 1700000000\<rparr>)
   \<and> map_sum id get_link_stats (replies (first_poll @ second_poll) link_state) =
       Inr [\<lparr>ls_src = 1, ls_dst = 2, ls_src_port = 2, ls_dst_port = 3, bw_mbps = 50,
              throughput_mbps = 2, utilization = 4, packet_loss_rate = 10,
              rx_packets_u = 120, tx_packets_u = 150, rx_dropped_u = 0, tx_dropped_u = 0\<rparr>]"
proof -
  let ?cu = "\<lparr>rx_packets = 120, tx_packets = 150, rx_bytes = 12000, tx_bytes = 2500000,
              rx_dropped = 0, tx_dropped = 0, rx_errors = 0, tx_errors = 0, timestamp = 1700000005\<rparr>"
  let ?cv = "\<lparr>rx_packets = 135, tx_packets = 110, rx_bytes = 13000, tx_bytes = 11000,
              rx_dropped = 0, tx_dropped = 0, rx_errors = 0, tx_errors = 0, timestamp = 1700000005\<rparr>"
  let ?pu = "\<lparr>rx_packets = 80, tx_packets = 100, rx_bytes = 8000, tx_bytes = 1250000,
              rx_dropped = 0, tx_dropped = 0, rx_errors = 0, tx_errors = 0, timestamp = 1700000000\<rparr>"
  let ?pv = "\<lparr>rx_packets = 90, tx_packets = 70, rx_bytes = 9000, tx_bytes = 7000,
              rx_dropped = 0, tx_dropped = 0, rx_errors = 0, tx_errors = 0, timestamp = 1700000000\<rparr>"
  from replies_second_poll obtain st where
    st: "replies (first_poll @ second_poll) link_state = Inr st"
    and f: "(adj st, lookup_sample (port_stats st) 1 2, lookup_sample (port_stats st) 2 3,
             lookup_sample (port_stats_prev st) 1 2, lookup_sample (port_stats_prev st) 2 3) =
            ([((1, 2), 2), ((2, 1), 3)], Some ?cu, Some ?cv, Some ?pu, Some ?pv)"
    by (rule map_sum_InrE)
  from f have a: "adj st = [((1, 2), 2), ((2, 1), 3)]"
    and l: "lookup_sample (port_stats st) 1 2 = Some ?cu" "lookup_sample (port_stats st) 2 3 = Some ?cv"
      "lookup_sample (port_stats_prev st) 1 2 = Some ?pu" "lookup_sample (port_stats_prev st) 2 3 = Some ?pv"
    by simp_all
  have m: "map_of (adj st) (1, 2) = Some 2" "map_of (adj st) (2, 1) = Some 3"
    by (simp_all add: a)
  have d: "fsub (timestamp ?cu) (timestamp ?pu) = 5"
    by (simp add: fsub_def)
  have h: "(1::nat) \<le> 2" "(2::nat) \<noteq> 0" "(3::nat) \<noteq> 0" "0 < fsub (timestamp ?cu) (timestamp ?pu)"
    unfolding d by simp_all
  have b: "tx_bytes ?cu - tx_bytes ?pu = 1250000 \<and> fsub (timestamp ?cu) (timestamp ?pu) = 5"
    using d by simp
  have lo: "(if 0 < tx_packets ?cu - tx_packets ?pu
             then fmul (int_truediv (max 0 (tx_packets ?cu - tx_packets ?pu - (rx_packets ?cv - rx_packets ?pv)))
                          (tx_packets ?cu - tx_packets ?pu)) 100 else 0) = 10"
    by (simp add: loss_of_5_in_50)
  note w = link_stats_formulas [OF m h(1-3) l h(4)]
  from w b have t: "py_round2 (fdiv (float_of_int (8 * (tx_bytes ?cu - tx_bytes ?pu)))
                      (fmul (fsub (timestamp ?cu) (timestamp ?pu)) 1000000)) = 2"
    and u: "py_round2 (fmul (fdiv (fdiv (float_of_int (8 * (tx_bytes ?cu - tx_bytes ?pu)))
                      (fmul (fsub (timestamp ?cu) (timestamp ?pu)) 1000000))
                 (float_of_int (int (bw_of 1 2)))) 100) = 4"
    using bw_of_1_2 by blast+
  from w have "link_row st (1, 2) =
      Some \<lparr>ls_src = 1, ls_dst = 2, ls_src_port = 2, ls_dst_port = 3, bw_mbps = 50,
              throughput_mbps = 2, utilization = 4, packet_loss_rate = 10,
              rx_packets_u = 120, tx_packets_u = 150, rx_dropped_u = 0, tx_dropped_u = 0\<rparr>"
    unfolding t u lo by (simp add: bw_of_1_2 py_round2_values del: One_nat_def)
  with a have "get_link_stats st =
      [\<lparr>ls_src = 1, ls_dst = 2, ls_src_port = 2, ls_dst_port = 3, bw_mbps = 50,
              throughput_mbps = 2, utilization = 4, packet_loss_rate = 10,
              rx_packets_u = 120, tx_packets_u = 150, rx_dropped_u = 0, tx_dropped_u = 0\<rparr>]"
    by (rule get_link_stats_single)
  then show ?thesis
    using replies_second_poll by (simp add: st)
qed

text \<open>
  The claim C2 as it was stated fails: when one byte was sent in five seconds, the
  formula gives a throughput of 1/625000 Mbps, and the reported throughput is 0.
\<close>

theorem link_stats_counterexample:
  "map_sum id (\<lambda>st. (lookup_sample (port_stats st) 1 2, lookup_sample (port_stats_prev st) 1 2,
                       map throughput_mbps (get_link_stats st)))
     (replies (first_poll @ quiet_poll) link_state) =
   Inr (Some \<lparr>rx_packets = 80, tx_packets = 101, rx_bytes = 8000, tx_bytes = 1250001,
              rx_dropped = 0, tx_dropped = 0, rx_errors = 0, tx_errors = 0, timestamp = 1700000005\<rparr>,
        Some \<lparr>rx_packets = 80, tx_packets = 100, rx_bytes = 8000, tx_bytes = 1250000,
              rx_dropped = 0, tx_dropped = 0, rx_errors = 0, tx_errors = 0, timestamp = 1700000000\<rparr>,
        [0])
   \<and> 8 * rat_of_int (1250001 - 1250000) / ((1700000005 - 1700000000) * 1000000) = 1 / 625000
   \<and> (1 / 625000 :: rat) \<noteq> 0"
proof -
  let ?cu = "\<lparr>rx_packets = 80, tx_packets = 101, rx_bytes = 8000, tx_bytes = 1250001,
              rx_dropped = 0, tx_dropped = 0, rx_errors = 0, tx_errors = 0, timestamp = 1700000005\<rparr>"
  let ?cv = "\<lparr>rx_packets = 91, tx_packets = 70, rx_bytes = 9001, tx_bytes = 7000,
              rx_dropped = 0, tx_dropped = 0, rx_errors = 0, tx_errors = 0, timestamp = 1700000005\<rparr>"
  let ?pu = "\<lparr>rx_packets = 80, tx_packets = 100, rx_bytes = 8000, tx_bytes = 1250000,
              rx_dropped = 0, tx_dropped = 0, rx_errors = 0, tx_errors = 0, timestamp = 1700000000\<rparr>"
  let ?pv = "\<lparr>rx_packets = 90, tx_packets = 70, rx_bytes = 9000, tx_bytes = 7000,
              rx_dropped = 0, tx_dropped = 0, rx_errors = 0, tx_errors = 0, timestamp = 1700000000\<rparr>"
  from replies_quiet_poll obtain st where
    st: "replies (first_poll @ quiet_poll) link_state = Inr st"
    and f: "(adj st, lookup_sample (port_stats st) 1 2, lookup_sample (port_stats st) 2 3,
             lookup_sample (port_stats_prev st) 1 2, lookup_sample (port_stats_prev st) 2 3) =
            ([((1, 2), 2), ((2, 1), 3)], Some ?cu, Some ?cv, Some ?pu, Some ?pv)"
    by (rule map_sum_InrE)
  from f have a: "adj st = [((1, 2), 2), ((2, 1), 3)]"
    and l: "lookup_sample (port_stats st) 1 2 = Some ?cu" "lookup_sample (port_stats st) 2 3 = Some ?cv"
      "lookup_sample (port_stats_prev st) 1 2 = Some ?pu" "lookup_sample (port_stats_prev st) 2 3 = Some ?pv"
    by simp_all
  have d: "fsub 1700000005 1700000000 = 5"
    by (simp add: fsub_def)
  have t: "fdiv (float_of_int 8) (fmul 5 1000000) = 944473296573929 / 590295810358705651712"
    by (simp add: fdiv_def fmul_def float_of_int_def double_625000th)
  have r: "py_round2 (944473296573929 / 590295810358705651712) = 0"
    by (rule py_round2_small) simp_all
  have "\<exists>row. link_row st (1, 2) = Some row \<and> throughput_mbps row = 0"
    by (simp add: link_row_def a l Let_def fld_def d t r del: One_nat_def)
  then obtain row where "link_row st (1, 2) = Some row" and t: "throughput_mbps row = 0"
    by blast
  with a have "get_link_stats st = [row]"
    by (intro get_link_stats_single)
  then show ?thesis
    by (simp add: st l t del: One_nat_def)
qed

text \<open>
  C6, on the code. After the first poll (one sample at each end of the link, none
  before it) the statistics raise nothing, but the loss rate they report is not 0: it
  is computed from the one sample, 100 packets sent by \<open>s1\<close> and 90 received by \<open>s2\<close>,
  since a missing previous sample reads as a time stamp and counters of 0.
\<close>

theorem first_poll_uses_single_sample:
  "map_sum id (\<lambda>st. (lookup_sample (port_stats_prev st) 1 2, lookup_sample (port_stats_prev st) 2 3,
                       map packet_loss_rate (get_link_stats st)))
     (replies first_poll link_state) = Inr (None, None, [10])"
proof -
  let ?cu = "\<lparr>rx_packets = 80, tx_packets = 100, rx_bytes = 8000, tx_bytes = 1250000,
              rx_dropped = 0, tx_dropped = 0, rx_errors = 0, tx_errors = 0, timestamp = 1700000000\<rparr>"
  let ?cv = "\<lparr>rx_packets = 90, tx_packets = 70, rx_bytes = 9000, tx_bytes = 7000,
              rx_dropped = 0, tx_dropped = 0, rx_errors = 0, tx_errors = 0, timestamp = 1700000000\<rparr>"
  from replies_first_poll obtain st where
    st: "replies first_poll link_state = Inr st"
    and f: "(adj st, lookup_sample (port_stats st) 1 2, lookup_sample (port_stats st) 2 3,
             lookup_sample (port_stats_prev st) 1 2, lookup_sample (port_stats_prev st) 2 3) =
            ([((1, 2), 2), ((2, 1), 3)], Some ?cu, Some ?cv, None, None)"
    by (rule map_sum_InrE)
  from f have a: "adj st = [((1, 2), 2), ((2, 1), 3)]"
    and l: "lookup_sample (port_stats st) 1 2 = Some ?cu" "lookup_sample (port_stats st) 2 3 = Some ?cv"
      "lookup_sample (port_stats_prev st) 1 2 = None" "lookup_sample (port_stats_prev st) 2 3 = None"
    by simp_all
  have d: "fsub 1700000000 0 = 1700000000"
    by (simp add: fsub_def)
  have "\<exists>row. link_row st (1, 2) = Some row \<and> packet_loss_rate row = 10"
    by (simp add: link_row_def a l Let_def fld_def d loss_of_10_in_100 py_round2_values
        del: One_nat_def)
  then obtain row where "link_row st (1, 2) = Some row" and t: "packet_loss_rate row = 10"
    by blast
  with a have "get_link_stats st = [row]"
    by (intro get_link_stats_single)
  then show ?thesis
    by (simp add: st l t del: One_nat_def)
qed

subsection \<open>Malformed requests\<close>

text \<open>
  C5, on the code. A node identifier that \<^verbatim>\<open>parse_node\<close> refuses is answered with the
  status 500, not with a client error: the \<^verbatim>\<open>ValueError\<close> reaches the handler of every
  exception. The state is left as it is, as the claim says. A mode that is neither
  \<open>hops\<close> nor \<open>distrak\<close> is answered with 400 and leaves the state as it is.
\<close>

theorem malformed_node_gets_500:
  "path sp (Some ''abc'') (Some ''1'') st =
     (\<lparr>status = 500, body = ExceptionError (ValueError BadNodeFormat)\<rparr>, st)
   \<and> (\<forall>s t e. s \<noteq> [] \<and> t \<noteq> [] \<and> parse_node s = Inl e \<longrightarrow>
         path sp (Some s) (Some t) st = (\<lparr>status = 500, body = ExceptionError e\<rparr>, st))
   \<and> (\<forall>s t a e. s \<noteq> [] \<and> t \<noteq> [] \<and> parse_node s = Inr a \<and> parse_node t = Inl e \<longrightarrow>
         path sp (Some s) (Some t) st = (\<lparr>status = 500, body = ExceptionError e\<rparr>, st))
   \<and> (\<forall>a b. snd (path sp a b st) = st)
   \<and> (\<forall>obj. (\<forall>m. obj ''mode'' = Some (JString m) \<longrightarrow> m \<noteq> ''hops'' \<and> m \<noteq> ''distrak'') \<longrightarrow>
         rest_set_mode tp sp (JObject obj) st = (\<lparr>status = 400, body = ModeError\<rparr>, st))"
proof -
  have "path sp (Some ''abc'') (Some ''1'') st =
     (\<lparr>status = 500, body = ExceptionError (ValueError BadNodeFormat)\<rparr>, st)"
    by (simp add: path_def parse_node_examples)
  moreover have "\<forall>a b. snd (path sp a b st) = st"
    by (auto simp: path_def split: option.splits sum.splits sp_result.splits)
  moreover have "\<forall>obj. (\<forall>m. obj ''mode'' = Some (JString m) \<longrightarrow> m \<noteq> ''hops'' \<and> m \<noteq> ''distrak'') \<longrightarrow>
         rest_set_mode tp sp (JObject obj) st = (\<lparr>status = 400, body = ModeError\<rparr>, st)"
    by (auto simp: rest_set_mode_def split: option.splits jvalue.splits)
  ultimately show ?thesis
    by (simp add: path_def)
qed

theorem malformed_node_gets_500_witness:
  "parse_node ''abc'' = Inl (ValueError BadNodeFormat)
   \<and> path line_sp (Some ''abc'') (Some ''1'') demo_state =
       (\<lparr>status = 500, body = ExceptionError (ValueError BadNodeFormat)\<rparr>, demo_state)
   \<and> path line_sp (Some ''s1'') (Some ''abc'') demo_state =
       (\<lparr>status = 500, body = ExceptionError (ValueError BadNodeFormat)\<rparr>, demo_state)
   \<and> rest_set_mode demo_topo line_sp (JObject [''mode'' \<mapsto> JString ''fastest'']) demo_state =
       (\<lparr>status = 400, body = ModeError\<rparr>, demo_state)"
proof -
  note w = malformed_node_gets_500 [of line_sp demo_state demo_topo]
  have n: "''s1'' \<noteq> []" "''abc'' \<noteq> []" by simp_all
  from w have "path line_sp (Some ''s1'') (Some ''abc'') demo_state =
       (\<lparr>status = 500, body = ExceptionError (ValueError BadNodeFormat)\<rparr>, demo_state)"
    using n parse_node_examples(1,3) by blast
  moreover have "\<forall>m. [''mode'' \<mapsto> JString ''fastest''] ''mode'' = Some (JString m) \<longrightarrow>
      m \<noteq> ''hops'' \<and> m \<noteq> ''distrak''"
    by simp
  with w have "rest_set_mode demo_topo line_sp (JObject [''mode'' \<mapsto> JString ''fastest'']) demo_state =
       (\<lparr>status = 400, body = ModeError\<rparr>, demo_state)"
    by blast
  ultimately show ?thesis
    using w parse_node_examples(3) by simp
qed

end
